theory Spec2Isabelle
  imports Complex_Main "HOL-Library.Product_Lexorder"
begin

section \<open>Rate limiter and combo engine (client/modules/state.js)\<close>

text \<open>
  JavaScript numbers that hold timestamps, scores and counters are modelled as \<open>int\<close>;
  the point computation, which multiplies by 1.5 before flooring, is carried out in
  \<open>real\<close>. The module-level variables \<open>gameState\<close>, \<open>powerUpsState\<close>,
  \<open>tapsWindow\<close> and \<open>scoreHistory\<close> are the fields of one record that every
  operation takes and returns. Logging, listener notification, DOM events and the
  writes to local storage do not change these variables and are left out.
\<close>

definition MAX_TAPS_PER_SECOND :: int where
  "MAX_TAPS_PER_SECOND = 4"

definition MIN_INTERVAL :: int where
  "MIN_INTERVAL = 1000 div MAX_TAPS_PER_SECOND"

definition COMBO_TIMEOUT :: int where
  "COMBO_TIMEOUT = 1200"

definition MAX_SCORE_INCREMENT :: int where
  "MAX_SCORE_INCREMENT = 1000"

record statistics =
  totalPlayTime :: int
  highestCombo :: int
  totalTaps :: int
  sessionsPlayed :: int

record game_state =
  score :: int
  combo :: int
  lastSlapAt :: int
  lastComboTick :: int
  totalSlaps :: int
  sessionStartTime :: int
  dailyClaimed :: bool
  lastDailyClaim :: int
  achievements :: "string list"
  statistics :: statistics

record power_up =
  unlocked :: bool
  active :: bool
  cooldown :: int
  duration :: int
  unlockThreshold :: int

record power_ups_state =
  doublePoints :: power_up
  rapidFire :: power_up
  shield :: power_up
  magnet :: power_up
  boost :: power_up

record engine =
  gameState :: game_state
  powerUpsState :: power_ups_state
  tapsWindow :: "int list"
  scoreHistory :: "(int \<times> int) list"

text \<open>The two \<open>throw\<close> sites of \<open>slap\<close>.\<close>

datatype slap_error = TapRateTooHigh | InvalidScoreIncrement

text \<open>
  \<open>isValidTapRate\<close> first replaces \<open>tapsWindow\<close> by its entries younger than one
  second, then compares the length with the cap. The filtered window is kept whatever
  the answer.
\<close>

definition isValidTapRate :: "int \<Rightarrow> engine \<Rightarrow> bool \<times> engine" where
  "isValidTapRate now e =
     (let e' = e\<lparr>tapsWindow := filter (\<lambda>time. now - time < 1000) (tapsWindow e)\<rparr>
      in if int (length (tapsWindow e')) \<ge> MAX_TAPS_PER_SECOND then (False, e')
         else (True, e'))"

definition calculateCombo :: "int \<Rightarrow> game_state \<Rightarrow> int" where
  "calculateCombo now gs =
     (if now - lastComboTick gs < COMBO_TIMEOUT then min (combo gs + 1) 50 else 1)"

definition applyPowerUpEffects :: "power_ups_state \<Rightarrow> real \<Rightarrow> int" where
  "applyPowerUpEffects ps basePoints =
     (let points = basePoints;
          points = (if active (doublePoints ps) then points * 2 else points);
          points = (if active (rapidFire ps) then points * 1.5 else points);
          points = (if active (boost ps) then points * 3 else points)
      in \<lfloor>points\<rfloor>)"

text \<open>\<open>trackScoreHistory\<close> keeps the last 100 pairs; its detector only logs.\<close>

definition trackScoreHistory :: "int \<Rightarrow> int \<Rightarrow> engine \<Rightarrow> engine" where
  "trackScoreHistory sc timestamp e =
     (let h = scoreHistory e @ [(sc, timestamp)];
          h = (if length h > 100 then tl h else h)
      in e\<lparr>scoreHistory := h\<rparr>)"

definition unlockAchievement :: "string \<Rightarrow> game_state \<Rightarrow> game_state" where
  "unlockAchievement achievementId gs =
     (if achievementId \<notin> set (achievements gs)
      then gs\<lparr>achievements := achievements gs @ [achievementId]\<rparr> else gs)"

text \<open>The milestone list with the achievement id that the template string builds.\<close>

definition milestones :: "(int \<times> string) list" where
  "milestones =
     [(100, ''score_100''), (500, ''score_500''), (1000, ''score_1000''),
      (5000, ''score_5000''), (10000, ''score_10000''), (50000, ''score_50000''),
      (100000, ''score_100000'')]"

definition checkAchievements :: "int \<Rightarrow> int \<Rightarrow> game_state \<Rightarrow> game_state" where
  "checkAchievements prevScore newScore gs =
     (let gs = foldl (\<lambda>g (milestone, name).
                  if prevScore < milestone \<and> newScore \<ge> milestone
                  then unlockAchievement name g else g) gs milestones;
          gs = (if combo gs = 10 \<and> ''combo_10'' \<notin> set (achievements gs)
                then unlockAchievement ''combo_10'' gs else gs);
          gs = (if combo gs = 25 \<and> ''combo_25'' \<notin> set (achievements gs)
                then unlockAchievement ''combo_25'' gs else gs)
      in gs)"

definition unlockCheck :: "int \<Rightarrow> power_up \<Rightarrow> power_up" where
  "unlockCheck sc p =
     (if \<not> unlocked p \<and> sc \<ge> unlockThreshold p then p\<lparr>unlocked := True\<rparr> else p)"

definition checkPowerUpUnlocks :: "engine \<Rightarrow> engine" where
  "checkPowerUpUnlocks e =
     (let sc = score (gameState e); ps = powerUpsState e
      in e\<lparr>powerUpsState := ps\<lparr>doublePoints := unlockCheck sc (doublePoints ps),
                                 rapidFire := unlockCheck sc (rapidFire ps),
                                 shield := unlockCheck sc (shield ps),
                                 magnet := unlockCheck sc (magnet ps),
                                 boost := unlockCheck sc (boost ps)\<rparr>\<rparr>)"

text \<open>
  \<open>slap\<close> at the time \<open>now\<close> that \<open>Date.now()\<close> returned. The result is \<open>Inl\<close> for a
  thrown error (the \<open>catch\<close> block logs and rethrows), \<open>Inr None\<close> for the bare
  \<open>return\<close> and \<open>Inr (Some points)\<close> for \<open>return points\<close>; the second component is
  the module state the call leaves behind, also when it throws.
\<close>

definition slap :: "int \<Rightarrow> engine \<Rightarrow> (slap_error + int option) \<times> engine" where
  "slap now e0 =
     (case isValidTapRate now e0 of
        (False, e) \<Rightarrow> (Inl TapRateTooHigh, e)
      | (True, e) \<Rightarrow>
          if now - lastSlapAt (gameState e) < MIN_INTERVAL then (Inr None, e)
          else
            let gs = gameState e;
                gs = gs\<lparr>totalSlaps := totalSlaps gs + 1,
                        statistics := (statistics gs)\<lparr>totalTaps := totalTaps (statistics gs) + 1\<rparr>\<rparr>;
                e = e\<lparr>tapsWindow := tapsWindow e @ [now], gameState := gs\<rparr>;
                newCombo = calculateCombo now gs;
                prevScore = score gs;
                points = applyPowerUpEffects (powerUpsState e) (1 * of_int newCombo)
            in if points > MAX_SCORE_INCREMENT then (Inl InvalidScoreIncrement, e)
               else
                 let gs = gs\<lparr>combo := newCombo, score := score gs + points,
                              lastSlapAt := now, lastComboTick := now\<rparr>;
                     gs = gs\<lparr>statistics := (statistics gs)
                              \<lparr>highestCombo := max (highestCombo (statistics gs)) newCombo\<rparr>\<rparr>;
                     e = trackScoreHistory (score gs) now (e\<lparr>gameState := gs\<rparr>);
                     e = e\<lparr>gameState := checkAchievements prevScore (score gs) (gameState e)\<rparr>;
                     e = checkPowerUpUnlocks e
                 in (Inr (Some points), e))"

subsection \<open>The other operations on the game state\<close>

text \<open>The initial values of the module variables.\<close>

definition initialGameState :: "int \<Rightarrow> game_state" where
  "initialGameState startTime =
     \<lparr>score = 0, combo = 1, lastSlapAt = 0, lastComboTick = 0, totalSlaps = 0,
      sessionStartTime = startTime, dailyClaimed = False, lastDailyClaim = 0,
      achievements = [],
      statistics = \<lparr>totalPlayTime = 0, highestCombo = 0, totalTaps = 0, sessionsPlayed = 0\<rparr>\<rparr>"

definition lockedPowerUp :: "int \<Rightarrow> power_up" where
  "lockedPowerUp threshold =
     \<lparr>unlocked = False, active = False, cooldown = 0, duration = 0, unlockThreshold = threshold\<rparr>"

definition initialPowerUpsState :: power_ups_state where
  "initialPowerUpsState =
     \<lparr>doublePoints = lockedPowerUp 500, rapidFire = lockedPowerUp 1000,
      shield = lockedPowerUp 2000, magnet = lockedPowerUp 5000, boost = lockedPowerUp 10000\<rparr>"

definition initialEngine :: "int \<Rightarrow> engine" where
  "initialEngine startTime =
     \<lparr>gameState = initialGameState startTime, powerUpsState = initialPowerUpsState,
      tapsWindow = [], scoreHistory = []\<rparr>"

text \<open>
  A property lookup on an object literal also finds what the object inherits from
  \<open>Object.prototype\<close>: under each of these names it yields a function (an object for
  \<open>__proto__\<close>), which is truthy and has none of the fields the code goes on to read.
\<close>

definition object_prototype_names :: "string list" where
  "object_prototype_names =
     [''constructor'', ''toString'', ''toLocaleString'', ''valueOf'', ''hasOwnProperty'',
      ''isPrototypeOf'', ''propertyIsEnumerable'', ''__proto__'', ''__defineGetter__'',
      ''__defineSetter__'', ''__lookupGetter__'', ''__lookupSetter__'']"

text \<open>
  \<open>powerUpsState[powerUpId]\<close> as a power-up: the five own properties. Under any other
  name the lookup is undefined, or one of the inherited values above.
\<close>

definition getPowerUp :: "string \<Rightarrow> power_ups_state \<Rightarrow> power_up option" where
  "getPowerUp powerUpId ps =
     (if powerUpId = ''doublePoints'' then Some (doublePoints ps)
      else if powerUpId = ''rapidFire'' then Some (rapidFire ps)
      else if powerUpId = ''shield'' then Some (shield ps)
      else if powerUpId = ''magnet'' then Some (magnet ps)
      else if powerUpId = ''boost'' then Some (boost ps)
      else None)"

definition setPowerUp :: "string \<Rightarrow> power_up \<Rightarrow> power_ups_state \<Rightarrow> power_ups_state" where
  "setPowerUp powerUpId p ps =
     (if powerUpId = ''doublePoints'' then ps\<lparr>doublePoints := p\<rparr>
      else if powerUpId = ''rapidFire'' then ps\<lparr>rapidFire := p\<rparr>
      else if powerUpId = ''shield'' then ps\<lparr>shield := p\<rparr>
      else if powerUpId = ''magnet'' then ps\<lparr>magnet := p\<rparr>
      else if powerUpId = ''boost'' then ps\<lparr>boost := p\<rparr>
      else ps)"

definition getPowerUpDuration :: "string \<Rightarrow> int" where
  "getPowerUpDuration powerUpId =
     (if powerUpId = ''doublePoints'' then 30000
      else if powerUpId = ''rapidFire'' then 15000
      else if powerUpId = ''shield'' then 60000
      else if powerUpId = ''magnet'' then 20000
      else if powerUpId = ''boost'' then 10000
      else 30000)"

definition getPowerUpCooldown :: "string \<Rightarrow> int" where
  "getPowerUpCooldown powerUpId =
     (if powerUpId = ''doublePoints'' then 120000
      else if powerUpId = ''rapidFire'' then 90000
      else if powerUpId = ''shield'' then 180000
      else if powerUpId = ''magnet'' then 150000
      else if powerUpId = ''boost'' then 300000
      else 120000)"

datatype activate_error = InvalidPowerUpId | NotUnlocked | OnCooldown | AlreadyActive

text \<open>
  Every \<open>throw\<close> of \<open>activatePowerUp\<close> precedes its first assignment. An inherited
  value passes the test \<open>!powerUp\<close> and has no \<open>unlocked\<close>, which is the second
  \<open>throw\<close>.
\<close>

definition activatePowerUp :: "string \<Rightarrow> engine \<Rightarrow> activate_error + engine" where
  "activatePowerUp powerUpId e =
     (case getPowerUp powerUpId (powerUpsState e) of
        None \<Rightarrow> if powerUpId \<in> set object_prototype_names then Inl NotUnlocked
                else Inl InvalidPowerUpId
      | Some powerUp \<Rightarrow>
          if \<not> unlocked powerUp then Inl NotUnlocked
          else if cooldown powerUp > 0 then Inl OnCooldown
          else if active powerUp then Inl AlreadyActive
          else Inr (e\<lparr>powerUpsState :=
                 setPowerUp powerUpId
                   (powerUp\<lparr>active := True, duration := getPowerUpDuration powerUpId,
                            cooldown := getPowerUpCooldown powerUpId\<rparr>)
                   (powerUpsState e)\<rparr>))"

text \<open>
  The callback of the deactivation timer; an inherited value has no \<open>active\<close> and
  nothing happens.
\<close>

definition deactivatePowerUp :: "string \<Rightarrow> engine \<Rightarrow> engine" where
  "deactivatePowerUp powerUpId e =
     (case getPowerUp powerUpId (powerUpsState e) of
        None \<Rightarrow> e
      | Some powerUp \<Rightarrow>
          if active powerUp
          then e\<lparr>powerUpsState :=
                 setPowerUp powerUpId (powerUp\<lparr>active := False, duration := 0\<rparr>) (powerUpsState e)\<rparr>
          else e)"

datatype claim_error = DailyAlreadyClaimed

definition claimDailyReward :: "int \<Rightarrow> engine \<Rightarrow> claim_error + int \<times> engine" where
  "claimDailyReward now e =
     (let gs = gameState e;
          lastClaim = lastDailyClaim gs;
          daysSinceLastClaim = (now - lastClaim) div (24 * 60 * 60 * 1000)
      in if dailyClaimed gs \<and> daysSinceLastClaim < 1 then Inl DailyAlreadyClaimed
         else
           let baseReward = 100;
               streakBonus = min daysSinceLastClaim 7 * 20;
               totalReward = baseReward + streakBonus
           in Inr (totalReward,
                   e\<lparr>gameState := gs\<lparr>score := score gs + totalReward, dailyClaimed := True,
                                      lastDailyClaim := now\<rparr>\<rparr>))"

text \<open>The interval callbacks of \<open>startBackgroundTasks\<close>.\<close>

definition cooldownStep :: "power_up \<Rightarrow> power_up" where
  "cooldownStep p = (if cooldown p > 0 then p\<lparr>cooldown := max 0 (cooldown p - 1000)\<rparr> else p)"

definition cooldownTick :: "engine \<Rightarrow> engine" where
  "cooldownTick e =
     (let ps = powerUpsState e
      in e\<lparr>powerUpsState := ps\<lparr>doublePoints := cooldownStep (doublePoints ps),
                                 rapidFire := cooldownStep (rapidFire ps),
                                 shield := cooldownStep (shield ps),
                                 magnet := cooldownStep (magnet ps),
                                 boost := cooldownStep (boost ps)\<rparr>\<rparr>)"

definition playTimeTick :: "engine \<Rightarrow> engine" where
  "playTimeTick e =
     (let gs = gameState e
      in e\<lparr>gameState := gs\<lparr>statistics := (statistics gs)
             \<lparr>totalPlayTime := totalPlayTime (statistics gs) + 1000\<rparr>\<rparr>\<rparr>)"

text \<open>
  The midnight check compares calendar dates in the local time zone; whether the
  current date differs from the date of the last claim is the parameter.
\<close>

definition dailyResetTick :: "bool \<Rightarrow> engine \<Rightarrow> engine" where
  "dailyResetTick dateDiffers e =
     (if dateDiffers then e\<lparr>gameState := (gameState e)\<lparr>dailyClaimed := False\<rparr>\<rparr> else e)"

definition addDebugScore :: "int \<Rightarrow> engine \<Rightarrow> engine" where
  "addDebugScore amount e =
     (if amount > 0 then e\<lparr>gameState := (gameState e)\<lparr>score := score (gameState e) + amount\<rparr>\<rparr>
      else e)"

definition validateGameState :: "game_state \<Rightarrow> game_state" where
  "validateGameState gs =
     (let gs = (if score gs < 0 then gs\<lparr>score := 0\<rparr> else gs);
          gs = (if combo gs < 1 then gs\<lparr>combo := 1\<rparr> else gs);
          gs = (if totalSlaps gs < 0 then gs\<lparr>totalSlaps := 0\<rparr> else gs)
      in gs)"

definition resetGameState :: "int \<Rightarrow> engine \<Rightarrow> engine" where
  "resetGameState now e =
     e\<lparr>gameState := (initialGameState now)
          \<lparr>statistics := (statistics (initialGameState now))\<lparr>sessionsPlayed := 1\<rparr>\<rparr>\<rparr>"

text \<open>
  \<open>initState\<close>: \<open>merged\<close> is the object \<open>{...gameState, ...savedState}\<close> when storage
  held a saved state, \<open>None\<close> when it held none.
\<close>

definition initState :: "game_state option \<Rightarrow> int \<Rightarrow> engine \<Rightarrow> engine" where
  "initState merged now e =
     (let gs = (case merged of Some g \<Rightarrow> validateGameState g | None \<Rightarrow> gameState e);
          gs = gs\<lparr>sessionStartTime := now,
                  statistics := (statistics gs)\<lparr>sessionsPlayed := sessionsPlayed (statistics gs) + 1\<rparr>\<rparr>
      in e\<lparr>gameState := gs\<rparr>)"

text \<open>The operations of the module as one type; a failed operation leaves the state as it is.\<close>

datatype engine_op =
    Slap int
  | ActivatePowerUp string
  | DeactivatePowerUp string
  | ClaimDailyReward int
  | CooldownTick
  | PlayTimeTick
  | DailyResetTick bool
  | AddDebugScore int
  | ResetGameState int
  | InitState "game_state option" int

fun run_op :: "engine_op \<Rightarrow> engine \<Rightarrow> engine" where
  "run_op (Slap now) e = snd (slap now e)"
| "run_op (ActivatePowerUp i) e = (case activatePowerUp i e of Inl _ \<Rightarrow> e | Inr e' \<Rightarrow> e')"
| "run_op (DeactivatePowerUp i) e = deactivatePowerUp i e"
| "run_op (ClaimDailyReward now) e = (case claimDailyReward now e of Inl _ \<Rightarrow> e | Inr (_, e') \<Rightarrow> e')"
| "run_op CooldownTick e = cooldownTick e"
| "run_op PlayTimeTick e = playTimeTick e"
| "run_op (DailyResetTick d) e = dailyResetTick d e"
| "run_op (AddDebugScore a) e = addDebugScore a e"
| "run_op (ResetGameState now) e = resetGameState now e"
| "run_op (InitState merged now) e = initState merged now e"

text \<open>A slap is accepted when it returns its points.\<close>

definition accepted :: "int \<Rightarrow> engine \<Rightarrow> bool" where
  "accepted now e = (case fst (slap now e) of Inr (Some _) \<Rightarrow> True | _ \<Rightarrow> False)"

section \<open>Arena server (modules/ui.js, the WebSocket handlers)\<close>

text \<open>
  The roster \<open>players\<close> is a map from the numeric id to the player object. Health,
  gas, score and combo only ever hold integers. Positions are JavaScript numbers, that
  is IEEE 754 doubles: a position is modelled by the real number the double denotes,
  and the arithmetic on positions rounds as the double arithmetic does (see \<open>fl\<close>
  below). A position that is not a number (a move message without a numeric \<open>x\<close> or
  \<open>y\<close>) is outside the model. Every \<open>broadcast\<close> is appended to the log \<open>sent\<close>, in
  the order of the calls.
\<close>

record player =
  player_id :: nat
  pos_x :: real
  pos_y :: real
  health :: int
  gas :: int
  alive :: bool
  player_score :: int
  player_combo :: int
  player_name :: "string option"

datatype event =
    PlayerJoined player
  | PlayerLeft nat
  | PlayerMoved nat real real
  | PlayerDied nat nat
  | PlayerHit nat int nat int
  | PlayerUpdate nat int int int

record arena =
  players :: "nat \<rightharpoonup> player"
  nextId :: nat
  sent :: "event list"

definition emptyArena :: arena where
  "emptyArena = \<lparr>players = Map.empty, nextId = 1, sent = []\<rparr>"

definition broadcast :: "event \<Rightarrow> arena \<Rightarrow> arena" where
  "broadcast data st = st\<lparr>sent := sent st @ [data]\<rparr>"

text \<open>The \<open>type\<close> discriminator of a broadcast.\<close>

fun event_type :: "event \<Rightarrow> string" where
  "event_type (PlayerJoined _) = ''playerJoined''"
| "event_type (PlayerLeft _) = ''playerLeft''"
| "event_type (PlayerMoved _ _ _) = ''playerMoved''"
| "event_type (PlayerDied _ _) = ''playerDied''"
| "event_type (PlayerHit _ _ _ _) = ''playerHit''"
| "event_type (PlayerUpdate _ _ _ _) = ''playerUpdate''"

text \<open>
  An assignment to a field of \<open>players[k]\<close>: the object stored under \<open>k\<close> is changed
  in place. The handlers only assign after they have checked that the object exists.
\<close>

definition modify_player :: "nat \<Rightarrow> (player \<Rightarrow> player) \<Rightarrow> arena \<Rightarrow> arena" where
  "modify_player k f st =
     (case players st k of None \<Rightarrow> st | Some p \<Rightarrow> st\<lparr>players := (players st)(k \<mapsto> f p)\<rparr>)"

text \<open>
  The connection handler; the two random spawn coordinates are its parameters. The
  \<open>init\<close> message goes to the new socket only and is no broadcast.
\<close>

definition new_player :: "nat \<Rightarrow> real \<Rightarrow> real \<Rightarrow> player" where
  "new_player playerId spawn_x spawn_y =
     \<lparr>player_id = playerId, pos_x = spawn_x, pos_y = spawn_y, health = 100, gas = 100,
      alive = True, player_score = 0, player_combo = 1, player_name = None\<rparr>"

definition on_connection :: "real \<Rightarrow> real \<Rightarrow> arena \<Rightarrow> arena" where
  "on_connection spawn_x spawn_y st =
     (let playerId = nextId st;
          p = new_player playerId spawn_x spawn_y;
          st = st\<lparr>nextId := playerId + 1, players := (players st)(playerId \<mapsto> p)\<rparr>
      in broadcast (PlayerJoined p) st)"

definition on_close :: "nat \<Rightarrow> arena \<Rightarrow> arena" where
  "on_close playerId st =
     broadcast (PlayerLeft playerId) (st\<lparr>players := (players st)(playerId := None)\<rparr>)"

text \<open>
  The parsed inbound messages. \<open>targetId\<close> is \<open>None\<close> when the message carries no
  usable key; any other \<open>type\<close> is \<open>OtherMessage\<close>.
\<close>

datatype message =
    Move real real
  | SlapIntent "nat option"
  | UpdateProfile "string option"
  | OtherMessage

subsection \<open>Double-precision arithmetic\<close>

text \<open>
  A finite double is an integer multiple \<open>m * 2 ^ k\<close> of a power of two with
  \<open>\<bar>m\<bar> < 2 ^ 53\<close> and \<open>- 1074 \<le> k\<close>. The operators \<open>-\<close>, \<open>*\<close> and \<open>+\<close> return the
  double nearest to the exact result, a tie going to the even multiple, and so does
  \<open>Math.sqrt\<close>, which the engines compute with the correctly rounded square root of
  IEEE 754: \<open>fl\<close> is that rounding. For \<open>x\<close> with \<open>2 ^ e \<le> \<bar>x\<bar> < 2 ^ (e + 1)\<close> the
  doubles around \<open>x\<close> are the multiples of \<open>2 ^ (e - 52)\<close>, and the multiples of
  \<open>2 ^ - 1074\<close> in the subnormal range. A result that rounds to \<open>2 ^ 1024\<close> or beyond is
  \<open>Infinity\<close> in the program and stays finite here; in the distance computation, where
  such a value is squared, added to a square or passed to the square root and then
  compared with 60, the two agree on the comparison. Positions inside the arena are
  far from that range.
\<close>

definition pow2 :: "int \<Rightarrow> real" where
  "pow2 k = (if k \<ge> 0 then 2 ^ nat k else 1 / 2 ^ nat (- k))"

text \<open>The nearest integer, a tie going to the even one.\<close>

definition rne :: "real \<Rightarrow> int" where
  "rne q =
     (let n = \<lfloor>q\<rfloor>; r = q - of_int n
      in if r < 1 / 2 then n else if r > 1 / 2 then n + 1 else if even n then n else n + 1)"

definition exponent :: "real \<Rightarrow> int" where
  "exponent x = \<lfloor>log 2 \<bar>x\<bar>\<rfloor>"

definition fl :: "real \<Rightarrow> real" where
  "fl x =
     (if x = 0 then 0
      else let k = max (exponent x - 52) (- 1074)
           in of_int (rne (x / pow2 k)) * pow2 k)"

subsection \<open>The message handlers\<close>

text \<open>
  Lines 1177 to 1179: the distance from the attacker to the target, as the handler
  computes it. Each of the two subtractions, the two products, the sum and the square
  root is one double operation.
\<close>

definition dist_between :: "player \<Rightarrow> player \<Rightarrow> real" where
  "dist_between attacker target =
     (let dx = fl (pos_x target - pos_x attacker);
          dy = fl (pos_y target - pos_y attacker)
      in fl (sqrt (fl (fl (dx * dx) + fl (dy * dy)))))"

text \<open>Lines 1182 to 1197: the hit on \<open>targetId\<close>, once it is known to be in range.\<close>

definition resolve_hit :: "nat \<Rightarrow> nat \<Rightarrow> arena \<Rightarrow> arena" where
  "resolve_hit playerId targetId st =
     (let st = modify_player targetId (\<lambda>p. p\<lparr>health := health p - 25\<rparr>) st;
          st = modify_player playerId
                 (\<lambda>p. p\<lparr>player_score := player_score p + 50 * player_combo p\<rparr>) st;
          st = (case players st targetId of
                  None \<Rightarrow> st
                | Some t \<Rightarrow>
                    if health t \<le> 0
                    then broadcast (PlayerDied targetId playerId)
                           (modify_player playerId (\<lambda>p. p\<lparr>player_score := player_score p + 200\<rparr>)
                              (modify_player targetId (\<lambda>p. p\<lparr>alive := False\<rparr>) st))
                    else st)
      in case players st targetId of
           None \<Rightarrow> st
         | Some t \<Rightarrow> broadcast (PlayerHit targetId (health t) playerId 25) st)"

definition on_slap :: "nat \<Rightarrow> nat option \<Rightarrow> arena \<Rightarrow> arena" where
  "on_slap playerId targetId st =
     (case players st playerId of
        None \<Rightarrow> st
      | Some p \<Rightarrow>
          if \<not> alive p \<or> gas p < 20 then st
          else
            let st = modify_player playerId
                       (\<lambda>p. p\<lparr>gas := gas p - 20, player_score := player_score p + 10,
                              player_combo := min (player_combo p + 1) 50\<rparr>) st;
                st = (case targetId of
                        None \<Rightarrow> st
                      | Some t \<Rightarrow>
                          (case (players st t, players st playerId) of
                             (Some target, Some attacker) \<Rightarrow>
                               if alive target \<and> dist_between attacker target < 60
                               then resolve_hit playerId t st else st
                           | _ \<Rightarrow> st))
            in case players st playerId of
                 None \<Rightarrow> st
               | Some p \<Rightarrow> broadcast (PlayerUpdate playerId (gas p) (player_score p) (player_combo p)) st)"

text \<open>The message handler of the connection of \<open>playerId\<close>.\<close>

fun on_message :: "nat \<Rightarrow> message \<Rightarrow> arena \<Rightarrow> arena" where
  "on_message playerId (Move new_x new_y) st =
     (case players st playerId of
        None \<Rightarrow> st
      | Some p \<Rightarrow>
          if \<not> alive p then st
          else
            let cx = max 20 (min 680 new_x); cy = max 20 (min 480 new_y)
            in broadcast (PlayerMoved playerId cx cy)
                 (modify_player playerId (\<lambda>p. p\<lparr>pos_x := cx, pos_y := cy\<rparr>) st))"
| "on_message playerId (SlapIntent targetId) st = on_slap playerId targetId st"
| "on_message playerId (UpdateProfile new_name) st =
     (case new_name of
        None \<Rightarrow> st
      | Some n \<Rightarrow> if n = [] then st
                  else modify_player playerId (\<lambda>p. p\<lparr>player_name := Some (take 20 n)\<rparr>) st)"
| "on_message playerId OtherMessage st = st"

text \<open>A slap intent is accepted when its sender is connected, alive and has 20 gas.\<close>

definition slap_intent_accepted :: "nat \<Rightarrow> arena \<Rightarrow> bool" where
  "slap_intent_accepted playerId st =
     (case players st playerId of None \<Rightarrow> False | Some p \<Rightarrow> alive p \<and> gas p \<ge> 20)"

text \<open>The broadcasts of hit resolution: the hit and the death events.\<close>

definition hit_events :: "event list \<Rightarrow> string list" where
  "hit_events evs =
     filter (\<lambda>ty. ty = ''playerHit'' \<or> ty = ''playerDied'') (map event_type evs)"

text \<open>
  The rectangle that the move handler clamps positions to; the spawn points of the
  connection handler lie inside it.
\<close>

definition in_arena :: "player \<Rightarrow> bool" where
  "in_arena p = (20 \<le> pos_x p \<and> pos_x p \<le> 680 \<and> 20 \<le> pos_y p \<and> pos_y p \<le> 480)"

section \<open>Offline sync queue (modules/persistence.js)\<close>

text \<open>
  A queue item is a JavaScript object that the queue array and the batch under
  processing share: \<open>item.attempts++\<close> on a batch element is seen through the queue.
  The objects therefore live in a store indexed by references, and \<open>syncQueue\<close> is a
  list of references. \<open>nextRef\<close> is the next unused reference. The payload is opaque.
\<close>

definition SYNC_RETRY_DELAY :: int where
  "SYNC_RETRY_DELAY = 30000"

definition MAX_RETRY_ATTEMPTS :: int where
  "MAX_RETRY_ATTEMPTS = 5"

record 'd sync_item =
  item_id :: string
  item_type :: string
  item_data :: 'd
  timestamp :: int
  attempts :: int
  maxAttempts :: int
  priority :: string
  retries :: int
  lastError :: "string option"

text \<open>The argument of \<open>enqueueSync\<close>: every property but the payload may be absent.\<close>

record 'd sync_request =
  req_type :: "string option"
  req_data :: 'd
  req_maxAttempts :: "int option"
  req_priority :: "string option"
  req_retries :: "int option"

record 'd sync_state =
  store :: "nat \<Rightarrow> 'd sync_item"
  syncQueue :: "nat list"
  nextRef :: nat
  onlineStatus :: bool
  syncInProgress :: bool

text \<open>
  The state at module load: an empty queue and no object allocated yet. The store is
  total, so it holds a blank item at every reference; \<open>blank\<close> is its payload.
\<close>

definition initialSyncState :: "'d \<Rightarrow> bool \<Rightarrow> 'd sync_state" where
  "initialSyncState blank online =
     \<lparr>store = (\<lambda>_. \<lparr>item_id = [], item_type = [], item_data = blank, timestamp = 0,
                     attempts = 0, maxAttempts = 0, priority = [], retries = 0,
                     lastError = None\<rparr>),
      syncQueue = [], nextRef = 0, onlineStatus = online, syncInProgress = False\<rparr>"

text \<open>\<open>s || d\<close> on an optional string and \<open>n || d\<close> on an optional number.\<close>

definition str_or :: "string option \<Rightarrow> string \<Rightarrow> string" where
  "str_or s d = (case s of None \<Rightarrow> d | Some v \<Rightarrow> if v = [] then d else v)"

definition num_or :: "int option \<Rightarrow> int \<Rightarrow> int" where
  "num_or n d = (case n of None \<Rightarrow> d | Some v \<Rightarrow> if v = 0 then d else v)"

text \<open>
  The comparator of the queue: \<open>priorityOrder[p] || 2\<close>, then the older item first.
  The table has the three own keys; a priority that names a property the table
  inherits (\<open>constructor\<close>, \<open>toString\<close>, ...) finds a function there, the difference
  the comparator returns is \<open>NaN\<close>, and the order that \<open>sort\<close> then produces is left to
  the implementation. So \<open>priorityOrder\<close> is the rank the code uses for every priority
  that \<open>ranked_priority\<close> admits, and the order of a queue that holds another priority
  is outside the model. Both callers of \<open>enqueueSync\<close> in the repository pass
  \<open>'normal'\<close>.
\<close>

definition priorityOrder :: "string \<Rightarrow> int" where
  "priorityOrder p =
     (if p = ''high'' then 3 else if p = ''normal'' then 2 else if p = ''low'' then 1 else 2)"

definition ranked_priority :: "string \<Rightarrow> bool" where
  "ranked_priority p = (p \<notin> set object_prototype_names)"

definition queue_key :: "'d sync_item \<Rightarrow> int \<times> int" where
  "queue_key i = (- priorityOrder (priority i), timestamp i)"

text \<open>
  \<open>enqueueSync\<close>. \<open>sanitizeInput\<close> is taken as a parameter; \<open>now\<close> is \<open>Date.now()\<close>
  and \<open>new_id\<close> the result of \<open>generateSyncId()\<close>. \<open>None\<close> stands for an argument
  that is no object. \<open>Array.prototype.sort\<close> is stable, as is \<open>sort_key\<close>. The
  deferred call of \<open>processSyncQueue\<close> is a separate operation.
\<close>

definition enqueueSync ::
  "(string \<Rightarrow> string) \<Rightarrow> int \<Rightarrow> string \<Rightarrow> 'd sync_request option \<Rightarrow> 'd sync_state \<Rightarrow> 'd sync_state"
where
  "enqueueSync sanitizeInput now new_id item st =
     (case item of
        None \<Rightarrow> st
      | Some item \<Rightarrow>
          let sanitizedItem =
                \<lparr>item_id = new_id,
                 item_type = sanitizeInput (str_or (req_type item) ''unknown''),
                 item_data = req_data item,
                 timestamp = now,
                 attempts = 0,
                 maxAttempts = num_or (req_maxAttempts item) MAX_RETRY_ATTEMPTS,
                 priority = str_or (req_priority item) ''normal'',
                 retries = num_or (req_retries item) 0,
                 lastError = None\<rparr>;
              r = nextRef st;
              st = st\<lparr>store := (store st)(r := sanitizedItem), nextRef := r + 1\<rparr>;
              q = syncQueue st @ [r];
              q = sort_key (\<lambda>x. queue_key (store st x)) q;
              q = (if length q > 1000 then take 1000 q else q)
          in st\<lparr>syncQueue := q\<rparr>)"

text \<open>\<open>findIndex\<close> followed by \<open>splice(index, 1)\<close>.\<close>

fun remove_first :: "('a \<Rightarrow> bool) \<Rightarrow> 'a list \<Rightarrow> 'a list" where
  "remove_first P [] = []"
| "remove_first P (x # xs) = (if P x then xs else x # remove_first P xs)"

definition dequeueSync :: "nat \<Rightarrow> 'd sync_state \<Rightarrow> 'd sync_state" where
  "dequeueSync item st =
     (if item_id (store st item) = [] then st
      else st\<lparr>syncQueue :=
             remove_first (\<lambda>queueItem. item_id (store st queueItem) = item_id (store st item))
               (syncQueue st)\<rparr>)"

text \<open>
  A settled promise of \<open>Promise.allSettled\<close>: fulfilled with a value, or rejected
  with a reason that may carry a message.
\<close>

datatype settled = Fulfilled bool | Rejected "string option"

text \<open>
  \<open>processSyncItem\<close>: an unknown type yields \<open>false\<close>; for the three known types the
  outcome of the remote submission is the parameter \<open>remote\<close>.
\<close>

definition processSyncItem :: "(nat \<Rightarrow> settled) \<Rightarrow> 'd sync_state \<Rightarrow> nat \<Rightarrow> settled" where
  "processSyncItem remote st item =
     (if item_type (store st item) = ''leaderboard_update'' then remote item
      else if item_type (store st item) = ''achievement_unlock'' then remote item
      else if item_type (store st item) = ''user_progress'' then remote item
      else Fulfilled False)"

text \<open>\<open>result.status === 'fulfilled' && result.value\<close>.\<close>

fun succeeded :: "settled \<Rightarrow> bool" where
  "succeeded (Fulfilled v) = v"
| "succeeded (Rejected _) = False"

text \<open>\<open>result.reason?.message || 'Unknown error'\<close>.\<close>

fun error_message :: "settled \<Rightarrow> string" where
  "error_message (Fulfilled _) = ''Unknown error''"
| "error_message (Rejected m) = str_or m ''Unknown error''"

text \<open>The failure branch: \<open>item.attempts++\<close> and \<open>item.lastError = ...\<close>.\<close>

definition record_failure :: "settled \<Rightarrow> nat \<Rightarrow> 'd sync_state \<Rightarrow> 'd sync_state" where
  "record_failure result item st =
     st\<lparr>store := (store st)(item := (store st item)
            \<lparr>attempts := attempts (store st item) + 1,
             lastError := Some (error_message result)\<rparr>)\<rparr>"

text \<open>The body of \<open>results.forEach\<close> for one item and its settled result.\<close>

definition settle :: "settled \<Rightarrow> nat \<Rightarrow> 'd sync_state \<Rightarrow> 'd sync_state" where
  "settle result item st =
     (if succeeded result then dequeueSync item st
      else
        let st = record_failure result item st
        in if attempts (store st item) \<ge> maxAttempts (store st item)
           then dequeueSync item st else st)"

definition processSyncBatch :: "(nat \<Rightarrow> settled) \<Rightarrow> nat list \<Rightarrow> 'd sync_state \<Rightarrow> 'd sync_state" where
  "processSyncBatch remote batch st =
     (let results = map (processSyncItem remote st) batch
      in foldl (\<lambda>s (result, item). settle result item s) st (zip results batch))"

text \<open>The loop \<open>for (i = 0; i < itemsToSync.length; i += batchSize)\<close>.\<close>

function process_from ::
  "(nat \<Rightarrow> settled) \<Rightarrow> nat \<Rightarrow> nat list \<Rightarrow> nat \<Rightarrow> 'd sync_state \<Rightarrow> 'd sync_state"
where
  "process_from remote batchSize itemsToSync i st =
     (if i < length itemsToSync \<and> 0 < batchSize
      then process_from remote batchSize itemsToSync (i + batchSize)
             (processSyncBatch remote (take batchSize (drop i itemsToSync)) st)
      else st)"
  by pat_completeness auto
termination
  by (relation "measure (\<lambda>(remote, batchSize, itemsToSync, i, st). length itemsToSync - i)") auto

declare process_from.simps [simp del]

definition itemsToSync :: "int \<Rightarrow> 'd sync_state \<Rightarrow> nat list" where
  "itemsToSync now st =
     filter (\<lambda>item. attempts (store st item) < maxAttempts (store st item) \<and>
                    now - timestamp (store st item) > attempts (store st item) * SYNC_RETRY_DELAY)
       (syncQueue st)"

text \<open>
  \<open>processSyncQueue\<close> at time \<open>now\<close>, run to its end without another operation in
  between; the \<open>finally\<close> block clears the in-progress flag.
\<close>

definition processSyncQueue :: "(nat \<Rightarrow> settled) \<Rightarrow> int \<Rightarrow> 'd sync_state \<Rightarrow> 'd sync_state" where
  "processSyncQueue remote now st =
     (if syncInProgress st \<or> \<not> onlineStatus st \<or> syncQueue st = [] then st
      else
        let st = st\<lparr>syncInProgress := True\<rparr>;
            items = itemsToSync now st;
            st = (if items = [] then st else process_from remote 5 items 0 st)
        in st\<lparr>syncInProgress := False\<rparr>)"

text \<open>
  The two other places that assign \<open>syncQueue\<close>: the emergency cleanup drops the
  items older than 24 hours, and \<open>clearAllData\<close> empties the queue.
\<close>

definition handleStorageQuotaExceeded :: "int \<Rightarrow> 'd sync_state \<Rightarrow> 'd sync_state" where
  "handleStorageQuotaExceeded now st =
     (let cutoffTime = now - 24 * 60 * 60 * 1000
      in st\<lparr>syncQueue := filter (\<lambda>item. timestamp (store st item) > cutoffTime) (syncQueue st)\<rparr>)"

definition clearAllData :: "'d sync_state \<Rightarrow> 'd sync_state" where
  "clearAllData st = st\<lparr>syncQueue := []\<rparr>"

text \<open>The operations that act on the queue after start-up.\<close>

datatype 'd sync_op =
    Enqueue int string "'d sync_request option"
  | Dequeue nat
  | Process "nat \<Rightarrow> settled" int
  | Online
  | Offline
  | QuotaExceeded int
  | ClearAllData

fun run_sync_op :: "(string \<Rightarrow> string) \<Rightarrow> 'd sync_op \<Rightarrow> 'd sync_state \<Rightarrow> 'd sync_state" where
  "run_sync_op sanitizeInput (Enqueue now new_id item) st = enqueueSync sanitizeInput now new_id item st"
| "run_sync_op sanitizeInput (Dequeue item) st = dequeueSync item st"
| "run_sync_op sanitizeInput (Process remote now) st = processSyncQueue remote now st"
| "run_sync_op sanitizeInput Online st = st\<lparr>onlineStatus := True\<rparr>"
| "run_sync_op sanitizeInput Offline st = st\<lparr>onlineStatus := False\<rparr>"
| "run_sync_op sanitizeInput (QuotaExceeded now) st = handleStorageQuotaExceeded now st"
| "run_sync_op sanitizeInput ClearAllData st = clearAllData st"

text \<open>
  The queue is well formed when no reference occurs twice, every reference has been
  allocated, and the ids, which \<open>generateSyncId\<close> makes unique and non-empty, are
  pairwise different and non-empty.
\<close>

definition queue_wf :: "'d sync_state \<Rightarrow> bool" where
  "queue_wf st =
     (distinct (map (\<lambda>r. item_id (store st r)) (syncQueue st)) \<and>
      list_all (\<lambda>r. r < nextRef st \<and> item_id (store st r) \<noteq> []) (syncQueue st))"

section \<open>Leaderboard (client/modules/leaderboard-api.js)\<close>

text \<open>
  An entry after validation: the score has been floored, so it is an integer; the
  timestamp is a number of milliseconds.
\<close>

definition MAX_LEADERBOARD_SIZE :: nat where
  "MAX_LEADERBOARD_SIZE = 100"

record entry =
  entry_id :: string
  entry_name :: string
  entry_score :: int
  entry_timestamp :: int
  session :: string

text \<open>
  \<open>sort((a, b) => b.score - a.score)\<close>: a stable sort, descending by score, hence
  ascending by the negated score.
\<close>

definition sort_by_score :: "entry list \<Rightarrow> entry list" where
  "sort_by_score es = sort_key (\<lambda>e. - entry_score e) es"

text \<open>
  The JavaScript \<open>Map\<close> of \<open>mergeLeaderboards\<close> is a list of key-value pairs in
  insertion order: \<open>set\<close> on a present key replaces the value where it stands, \<open>set\<close>
  on a new key appends, and \<open>values()\<close> reads the list from the front.
\<close>

fun map_set :: "'k \<Rightarrow> 'v \<Rightarrow> ('k \<times> 'v) list \<Rightarrow> ('k \<times> 'v) list" where
  "map_set k v [] = [(k, v)]"
| "map_set k v (p # ps) = (if fst p = k then (k, v) # ps else p # map_set k v ps)"

definition map_get :: "('k \<times> 'v) list \<Rightarrow> 'k \<Rightarrow> 'v option" where
  "map_get m k = map_of m k"

text \<open>The test under which a secondary entry replaces the existing one.\<close>

definition replaces :: "entry \<Rightarrow> entry \<Rightarrow> bool" where
  "replaces e existing =
     (entry_score e > entry_score existing \<or>
      (entry_score e = entry_score existing \<and> entry_timestamp e > entry_timestamp existing))"

definition add_primary :: "(string \<times> entry) list \<Rightarrow> entry \<Rightarrow> (string \<times> entry) list" where
  "add_primary merged e = map_set (entry_id e) e merged"

definition add_secondary :: "(string \<times> entry) list \<Rightarrow> entry \<Rightarrow> (string \<times> entry) list" where
  "add_secondary merged e =
     (case map_get merged (entry_id e) of
        None \<Rightarrow> map_set (entry_id e) e merged
      | Some existing \<Rightarrow> if replaces e existing then map_set (entry_id e) e merged else merged)"

text \<open>The map after both \<open>forEach\<close> loops.\<close>

definition merged_map :: "entry list \<Rightarrow> entry list \<Rightarrow> (string \<times> entry) list" where
  "merged_map primary secondary = foldl add_secondary (foldl add_primary [] primary) secondary"


definition mergeLeaderboards :: "entry list \<Rightarrow> entry list \<Rightarrow> entry list" where
  "mergeLeaderboards primary secondary =
     take MAX_LEADERBOARD_SIZE (sort_by_score (map snd (merged_map primary secondary)))"

text \<open>
  The identity collaborator: \<open>getUser()\<close> yields an object or nothing; \<open>id\<close>, already
  turned into a string, \<open>first_name\<close> and \<open>username\<close> may each be missing.
\<close>

record user =
  user_id :: "string option"
  first_name :: "string option"
  username :: "string option"

text \<open>
  The module state of the leaderboard together with the sync queue it feeds.
  \<open>savedLocal\<close> is the value last handed to \<open>saveState\<close> under the leaderboard key.
\<close>

record lb_state =
  leaderboard :: "entry list"
  savedLocal :: "entry list option"
  sync :: "entry sync_state"

text \<open>
  \<open>updateLeaderboard\<close>. The parameters beside the score are what the environment
  supplies: \<open>sanitizeInput\<close>, the user, whether the app runs inside Telegram, the
  clock, the generated session id and the generated sync id. The score is a finite
  number; a call with a value of another type takes the first branch like a negative
  score.
\<close>

definition updateLeaderboard ::
  "(string \<Rightarrow> string) \<Rightarrow> user option \<Rightarrow> bool \<Rightarrow> int \<Rightarrow> string \<Rightarrow> string \<Rightarrow> real \<Rightarrow> lb_state \<Rightarrow> lb_state"
where
  "updateLeaderboard sanitizeInput usr insideTelegram now new_session new_sync_id sc st =
     (case usr of
        None \<Rightarrow> st
      | Some u \<Rightarrow>
          if sc < 0 then st
          else
            let playerEntry =
                  \<lparr>entry_id = sanitizeInput (str_or (user_id u) ''anonymous''),
                   entry_name = sanitizeInput (str_or (first_name u) (str_or (username u) ''Anonymous'')),
                   entry_score = \<lfloor>sc\<rfloor>,
                   entry_timestamp = now,
                   session = new_session\<rparr>;
                lb = filter (\<lambda>e. entry_id e \<noteq> entry_id playerEntry) (leaderboard st);
                lb = lb @ [playerEntry];
                lb = sort_by_score lb;
                lb = take MAX_LEADERBOARD_SIZE lb;
                st = st\<lparr>leaderboard := lb, savedLocal := Some lb\<rparr>
            in if insideTelegram
               then st\<lparr>sync := enqueueSync sanitizeInput now new_sync_id
                          (Some \<lparr>req_type = Some ''leaderboard_update'', req_data = playerEntry,
                                 req_maxAttempts = None, req_priority = Some ''normal'',
                                 req_retries = Some 3\<rparr>)
                          (sync st)\<rparr>
               else st)"

section \<open>Properties of the rate limiter and combo engine\<close>

lemmas engine_consts = MAX_TAPS_PER_SECOND_def MIN_INTERVAL_def COMBO_TIMEOUT_def MAX_SCORE_INCREMENT_def

lemma applyPowerUpEffects_le:
  "c \<le> 50 \<Longrightarrow> applyPowerUpEffects ps (1 * of_int c) \<le> 450"
  unfolding applyPowerUpEffects_def Let_def
  by (auto simp: floor_le_iff)

lemma calculateCombo_le: "calculateCombo now gs \<le> 50"
  by (simp add: calculateCombo_def)

lemma slap_points_le: "applyPowerUpEffects ps (1 * of_int (calculateCombo now gs)) \<le> 450"
  by (rule applyPowerUpEffects_le[OF calculateCombo_le])

lemma unlockAchievement_fields:
  "combo (unlockAchievement a gs) = combo gs"
  "score (unlockAchievement a gs) = score gs"
  "lastSlapAt (unlockAchievement a gs) = lastSlapAt gs"
  "lastComboTick (unlockAchievement a gs) = lastComboTick gs"
  by (simp_all add: unlockAchievement_def)

lemma milestone_fold_fields:
  "combo (foldl (\<lambda>g (milestone, name). if P milestone then unlockAchievement name g else g) gs ms) = combo gs"
  "score (foldl (\<lambda>g (milestone, name). if P milestone then unlockAchievement name g else g) gs ms) = score gs"
  "lastSlapAt (foldl (\<lambda>g (milestone, name). if P milestone then unlockAchievement name g else g) gs ms) = lastSlapAt gs"
  "lastComboTick (foldl (\<lambda>g (milestone, name). if P milestone then unlockAchievement name g else g) gs ms) = lastComboTick gs"
  by (induction ms arbitrary: gs; simp add: unlockAchievement_fields split: prod.splits)+

lemma checkAchievements_fields:
  "combo (checkAchievements p n gs) = combo gs"
  "score (checkAchievements p n gs) = score gs"
  "lastSlapAt (checkAchievements p n gs) = lastSlapAt gs"
  "lastComboTick (checkAchievements p n gs) = lastComboTick gs"
  unfolding checkAchievements_def Let_def
  by (simp_all add: milestone_fold_fields unlockAchievement_fields)

lemma checkPowerUpUnlocks_gameState:
  "gameState (checkPowerUpUnlocks e) = gameState e"
  by (simp add: checkPowerUpUnlocks_def Let_def)

lemma trackScoreHistory_gameState:
  "gameState (trackScoreHistory s t e) = gameState e"
  by (simp add: trackScoreHistory_def Let_def)

text \<open>The three outcomes of slap, one lemma each.\<close>

lemma slap_rate_limited:
  assumes "int (length (filter (\<lambda>time. now - time < 1000) (tapsWindow e))) \<ge> 4"
  shows "slap now e = (Inl TapRateTooHigh, e\<lparr>tapsWindow := filter (\<lambda>time. now - time < 1000) (tapsWindow e)\<rparr>)"
  using assms by (simp add: slap_def isValidTapRate_def Let_def engine_consts)

lemma slap_too_soon:
  assumes "\<not> int (length (filter (\<lambda>time. now - time < 1000) (tapsWindow e))) \<ge> 4"
    and "now - lastSlapAt (gameState e) < 250"
  shows "slap now e = (Inr None, e\<lparr>tapsWindow := filter (\<lambda>time. now - time < 1000) (tapsWindow e)\<rparr>)"
  using assms by (simp add: slap_def isValidTapRate_def Let_def engine_consts)

lemma slap_accepted_full:
  assumes "\<not> int (length (filter (\<lambda>time. now - time < 1000) (tapsWindow e))) \<ge> 4"
    and "\<not> now - lastSlapAt (gameState e) < 250"
  shows "fst (slap now e) = Inr (Some (applyPowerUpEffects (powerUpsState e) (1 * of_int (calculateCombo now (gameState e)))))"
    and "gameState (snd (slap now e)) =
      checkAchievements (score (gameState e))
        (score (gameState e) + applyPowerUpEffects (powerUpsState e) (1 * of_int (calculateCombo now (gameState e))))
        ((gameState e)\<lparr>totalSlaps := totalSlaps (gameState e) + 1,
           combo := calculateCombo now (gameState e),
           score := score (gameState e) + applyPowerUpEffects (powerUpsState e) (1 * of_int (calculateCombo now (gameState e))),
           lastSlapAt := now, lastComboTick := now,
           statistics := (statistics (gameState e))
             \<lparr>totalTaps := totalTaps (statistics (gameState e)) + 1,
              highestCombo := max (highestCombo (statistics (gameState e))) (calculateCombo now (gameState e))\<rparr>\<rparr>)"
proof -
  have c: "calculateCombo now (gameState e\<lparr>totalSlaps := t, statistics := st\<rparr>) = calculateCombo now (gameState e)" for t st
    by (simp add: calculateCombo_def)
  have le: "\<not> applyPowerUpEffects (powerUpsState e) (1 * of_int (calculateCombo now (gameState e))) > 1000"
    using slap_points_le[of "powerUpsState e" now "gameState e"] by linarith
  show "fst (slap now e) = Inr (Some (applyPowerUpEffects (powerUpsState e) (1 * of_int (calculateCombo now (gameState e)))))"
    using assms le
    by (simp add: slap_def isValidTapRate_def Let_def engine_consts c)
  show "gameState (snd (slap now e)) =
      checkAchievements (score (gameState e))
        (score (gameState e) + applyPowerUpEffects (powerUpsState e) (1 * of_int (calculateCombo now (gameState e))))
        ((gameState e)\<lparr>totalSlaps := totalSlaps (gameState e) + 1,
           combo := calculateCombo now (gameState e),
           score := score (gameState e) + applyPowerUpEffects (powerUpsState e) (1 * of_int (calculateCombo now (gameState e))),
           lastSlapAt := now, lastComboTick := now,
           statistics := (statistics (gameState e))
             \<lparr>totalTaps := totalTaps (statistics (gameState e)) + 1,
              highestCombo := max (highestCombo (statistics (gameState e))) (calculateCombo now (gameState e))\<rparr>\<rparr>)"
    using assms le
    by (simp add: slap_def isValidTapRate_def Let_def engine_consts c
        checkPowerUpUnlocks_gameState trackScoreHistory_gameState)
qed

lemma slap_accepted:
  assumes "\<not> int (length (filter (\<lambda>time. now - time < 1000) (tapsWindow e))) \<ge> 4"
    and "\<not> now - lastSlapAt (gameState e) < 250"
  shows "combo (gameState (snd (slap now e))) = calculateCombo now (gameState e)"
    and "lastComboTick (gameState (snd (slap now e))) = now"
    and "lastSlapAt (gameState (snd (slap now e))) = now"
    and "score (gameState (snd (slap now e))) = score (gameState e) +
           applyPowerUpEffects (powerUpsState e) (1 * of_int (calculateCombo now (gameState e)))"
  by (simp_all add: slap_accepted_full(2)[OF assms] checkAchievements_fields)

lemma accepted_iff:
  "accepted now e \<longleftrightarrow>
     \<not> int (length (filter (\<lambda>time. now - time < 1000) (tapsWindow e))) \<ge> 4 \<and>
     \<not> now - lastSlapAt (gameState e) < 250"
proof (cases "int (length (filter (\<lambda>time. now - time < 1000) (tapsWindow e))) \<ge> 4")
  case True
  then show ?thesis by (simp add: accepted_def slap_rate_limited)
next
  case False
  show ?thesis
  proof (cases "now - lastSlapAt (gameState e) < 250")
    case True
    with False show ?thesis by (simp add: accepted_def slap_too_soon)
  next
    case f2: False
    with False show ?thesis by (simp add: accepted_def slap_accepted_full(1))
  qed
qed

lemma run_op_other_fields:
  assumes "\<And>now. op \<noteq> Slap now" "\<And>now. op \<noteq> ResetGameState now" "\<And>m now. op \<noteq> InitState m now"
  shows "combo (gameState (run_op op e)) = combo (gameState e)"
    and "lastComboTick (gameState (run_op op e)) = lastComboTick (gameState e)"
  using assms
  by (cases op; simp add: activatePowerUp_def deactivatePowerUp_def claimDailyReward_def
        cooldownTick_def playTimeTick_def dailyResetTick_def addDebugScore_def Let_def
        split: option.splits sum.splits prod.splits if_splits)+

lemma slap_rejected_gameState:
  assumes "\<not> accepted now e"
  shows "gameState (snd (slap now e)) = gameState e"
proof (cases "int (length (filter (\<lambda>time. now - time < 1000) (tapsWindow e))) \<ge> 4")
  case True
  then show ?thesis by (simp add: slap_rate_limited)
next
  case False
  with assms have "now - lastSlapAt (gameState e) < 250" by (simp add: accepted_iff)
  with False show ?thesis by (simp add: slap_too_soon)
qed

subsection \<open>Rate-limit rejection\<close>

text \<open>
  Claim C2, as the code has it: when the one-second window, cleaned at the time of the
  call, already holds four or more taps, \<open>slap\<close> awards nothing and leaves the game
  state as it was, and it reports the rejection by throwing the tap-rate error to its
  caller.
\<close>

theorem rate_limit_raises:
  "int (length (filter (\<lambda>time. now - time < 1000) (tapsWindow e))) \<ge> MAX_TAPS_PER_SECOND
   \<Longrightarrow> fst (slap now e) = Inl TapRateTooHigh \<and> gameState (snd (slap now e)) = gameState e"
  by (simp add: slap_rate_limited MAX_TAPS_PER_SECOND_def)

theorem rate_limit_raises_witness:
  "int (length (filter (\<lambda>time. 10999 - time < 1000)
      (tapsWindow (foldl (\<lambda>e t. run_op (Slap t) e) (initialEngine 0) [10000, 10250, 10500, 10750]))))
     \<ge> MAX_TAPS_PER_SECOND
   \<and> fst (slap 10999 (foldl (\<lambda>e t. run_op (Slap t) e) (initialEngine 0) [10000, 10250, 10500, 10750]))
       = Inl TapRateTooHigh
   \<and> gameState (snd (slap 10999
        (foldl (\<lambda>e t. run_op (Slap t) e) (initialEngine 0) [10000, 10250, 10500, 10750])))
      = gameState (foldl (\<lambda>e t. run_op (Slap t) e) (initialEngine 0) [10000, 10250, 10500, 10750])"
proof -
  let ?e = "foldl (\<lambda>e t. run_op (Slap t) e) (initialEngine 0) [10000, 10250, 10500, 10750]"
  have h: "int (length (filter (\<lambda>time. 10999 - time < 1000) (tapsWindow ?e))) \<ge> MAX_TAPS_PER_SECOND"
    by code_simp
  from rate_limit_raises[OF h] h show ?thesis by blast
qed

text \<open>
  Four taps accepted at 10000, 10250, 10500 and 10750 fill the window; the tap at 10999
  is not dropped silently, it throws.
\<close>

theorem rate_limit_silent_counterexample:
  "length (filter (\<lambda>time. 10999 - time < 1000)
      (tapsWindow (foldl (\<lambda>e t. run_op (Slap t) e) (initialEngine 0) [10000, 10250, 10500, 10750]))) = 4
   \<and> fst (slap 10999 (foldl (\<lambda>e t. run_op (Slap t) e) (initialEngine 0) [10000, 10250, 10500, 10750]))
       = Inl TapRateTooHigh"
  by code_simp

subsection \<open>The combo rule\<close>

text \<open>
  Claim C3, as the code has it: an accepted slap sets the combo to 1 when at least
  1200 ms have passed since \<open>lastComboTick\<close>, and to \<open>min (combo + 1) 50\<close> otherwise,
  and it stamps \<open>lastComboTick\<close> and \<open>lastSlapAt\<close> with its own time, so that
  \<open>lastComboTick\<close> is the time of the previous accepted slap. Among the operations of
  the module, the only ones that can change the combo or \<open>lastComboTick\<close> are an
  accepted slap, the reset to defaults and the initial load of a saved state.
\<close>

theorem combo_update_rule:
  "(accepted now e \<longrightarrow>
      combo (gameState (snd (slap now e))) =
        (if now - lastComboTick (gameState e) \<ge> 1200 then 1 else min (combo (gameState e) + 1) 50)
      \<and> lastComboTick (gameState (snd (slap now e))) = now
      \<and> lastSlapAt (gameState (snd (slap now e))) = now)
   \<and> (combo (gameState (run_op op e)) \<noteq> combo (gameState e) \<longrightarrow>
        (\<exists>t. op = Slap t \<and> accepted t e) \<or> (\<exists>t. op = ResetGameState t) \<or> (\<exists>m t. op = InitState m t))
   \<and> (lastComboTick (gameState (run_op op e)) \<noteq> lastComboTick (gameState e) \<longrightarrow>
        (\<exists>t. op = Slap t \<and> accepted t e) \<or> (\<exists>t. op = ResetGameState t) \<or> (\<exists>m t. op = InitState m t))"
proof (intro conjI impI)
  assume a: "accepted now e"
  then have h: "\<not> int (length (filter (\<lambda>time. now - time < 1000) (tapsWindow e))) \<ge> 4"
      "\<not> now - lastSlapAt (gameState e) < 250"
    by (simp_all add: accepted_iff)
  show "combo (gameState (snd (slap now e))) =
        (if now - lastComboTick (gameState e) \<ge> 1200 then 1 else min (combo (gameState e) + 1) 50)"
    by (simp add: slap_accepted(1)[OF h] calculateCombo_def COMBO_TIMEOUT_def)
  show "lastComboTick (gameState (snd (slap now e))) = now" by (rule slap_accepted(2)[OF h])
  show "lastSlapAt (gameState (snd (slap now e))) = now" by (rule slap_accepted(3)[OF h])
next
  assume c: "combo (gameState (run_op op e)) \<noteq> combo (gameState e)"
  show "(\<exists>t. op = Slap t \<and> accepted t e) \<or> (\<exists>t. op = ResetGameState t) \<or> (\<exists>m t. op = InitState m t)"
  proof (rule ccontr)
    assume n: "\<not> ?thesis"
    show False
    proof (cases "\<exists>t. op = Slap t")
      case True
      then obtain t where t: "op = Slap t" by blast
      with n have "\<not> accepted t e" by blast
      with c t show False by (simp add: slap_rejected_gameState)
    next
      case False
      with n c run_op_other_fields(1)[of op e] show False by blast
    qed
  qed
next
  assume c: "lastComboTick (gameState (run_op op e)) \<noteq> lastComboTick (gameState e)"
  show "(\<exists>t. op = Slap t \<and> accepted t e) \<or> (\<exists>t. op = ResetGameState t) \<or> (\<exists>m t. op = InitState m t)"
  proof (rule ccontr)
    assume n: "\<not> ?thesis"
    show False
    proof (cases "\<exists>t. op = Slap t")
      case True
      then obtain t where t: "op = Slap t" by blast
      with n have "\<not> accepted t e" by blast
      with c t show False by (simp add: slap_rejected_gameState)
    next
      case False
      with n c run_op_other_fields(2)[of op e] show False by blast
    qed
  qed
qed

theorem combo_update_rule_witness:
  "accepted 10300 (run_op (Slap 10000) (initialEngine 0))
   \<and> combo (gameState (snd (slap 10300 (run_op (Slap 10000) (initialEngine 0))))) = 2
   \<and> lastComboTick (gameState (snd (slap 10300 (run_op (Slap 10000) (initialEngine 0))))) = 10300
   \<and> accepted 12000 (run_op (Slap 10000) (initialEngine 0))
   \<and> combo (gameState (snd (slap 12000 (run_op (Slap 10000) (initialEngine 0))))) = 1
   \<and> combo (gameState (run_op (Slap 10300) (run_op (Slap 10000) (initialEngine 0))))
        \<noteq> combo (gameState (run_op (Slap 10000) (initialEngine 0)))
   \<and> ((\<exists>t. Slap 10300 = Slap t \<and> accepted t (run_op (Slap 10000) (initialEngine 0)))
        \<or> (\<exists>t. Slap 10300 = ResetGameState t) \<or> (\<exists>m t. Slap 10300 = InitState m t))"
proof -
  let ?e = "run_op (Slap 10000) (initialEngine 0)"
  have a1: "accepted 10300 ?e" by code_simp
  have a2: "accepted 12000 ?e" by code_simp
  have t1: "(if 10300 - lastComboTick (gameState ?e) \<ge> 1200 then 1 else min (combo (gameState ?e) + 1) 50) = 2"
    by code_simp
  have t2: "(if 12000 - lastComboTick (gameState ?e) \<ge> 1200 then 1 else min (combo (gameState ?e) + 1) 50) = 1"
    by code_simp
  have n: "combo (gameState (run_op (Slap 10300) ?e)) \<noteq> combo (gameState ?e)" by code_simp
  from combo_update_rule[of 10300 ?e "Slap 10300"] a1
  have 1: "combo (gameState (snd (slap 10300 ?e))) =
      (if 10300 - lastComboTick (gameState ?e) \<ge> 1200 then 1 else min (combo (gameState ?e) + 1) 50)"
    and 2: "lastComboTick (gameState (snd (slap 10300 ?e))) = 10300" by blast+
  from combo_update_rule[of 12000 ?e "Slap 10300"] a2
  have 3: "combo (gameState (snd (slap 12000 ?e))) =
      (if 12000 - lastComboTick (gameState ?e) \<ge> 1200 then 1 else min (combo (gameState ?e) + 1) 50)"
    by blast
  from combo_update_rule[of 10300 ?e "Slap 10300"] n
  have 4: "(\<exists>t. Slap 10300 = Slap t \<and> accepted t ?e)
        \<or> (\<exists>t. Slap 10300 = ResetGameState t) \<or> (\<exists>m t. Slap 10300 = InitState m t)" by blast
  show ?thesis
    using a1 a2 1[unfolded t1] 2 3[unfolded t2] n 4 by blast
qed

text \<open>
  After accepted slaps at 10000 and 10300 the combo is 2; \<open>resetGameState\<close>, which is
  no slap, puts it back to 1.
\<close>

theorem combo_sole_path_counterexample:
  "combo (gameState (run_op (Slap 10300) (run_op (Slap 10000) (initialEngine 0)))) = 2
   \<and> combo (gameState (resetGameState 20000
        (run_op (Slap 10300) (run_op (Slap 10000) (initialEngine 0))))) = 1"
  by code_simp

subsection \<open>The point ceiling\<close>

text \<open>
  Claim C5: the points of an accepted slap are the floor of 1 times the new combo times
  the modifiers of the active power-ups (2 for doublePoints, 1.5 for rapidFire, 3 for
  boost). The new combo never exceeds 50, so the points never exceed 450, which is
  below the ceiling of 1000, and \<open>slap\<close> never throws the invalid-increment error,
  whatever the state it is called in.
\<close>

theorem points_within_ceiling:
  "fst (slap now e) \<noteq> Inl InvalidScoreIncrement
   \<and> (\<forall>p. fst (slap now e) = Inr (Some p) \<longrightarrow>
         p = \<lfloor>1 * real_of_int (combo (gameState (snd (slap now e))))
               * (if active (doublePoints (powerUpsState e)) then 2 else 1)
               * (if active (rapidFire (powerUpsState e)) then 1.5 else 1)
               * (if active (boost (powerUpsState e)) then 3 else 1)\<rfloor>
         \<and> combo (gameState (snd (slap now e))) \<le> 50
         \<and> p \<le> 450 \<and> p \<le> MAX_SCORE_INCREMENT)
   \<and> (\<forall>c ps. c \<le> 50 \<longrightarrow> applyPowerUpEffects ps (1 * real_of_int c) \<le> 450)"
proof (intro conjI allI impI)
  show "fst (slap now e) \<noteq> Inl InvalidScoreIncrement"
  proof (cases "accepted now e")
    case True
    then show ?thesis by (simp add: accepted_iff slap_accepted_full(1))
  next
    case False
    then show ?thesis
      by (cases "int (length (filter (\<lambda>time. now - time < 1000) (tapsWindow e))) \<ge> 4")
         (simp_all add: accepted_iff slap_rate_limited slap_too_soon)
  qed
next
  fix p assume p: "fst (slap now e) = Inr (Some p)"
  then have "accepted now e" by (simp add: accepted_def)
  then have h: "\<not> int (length (filter (\<lambda>time. now - time < 1000) (tapsWindow e))) \<ge> 4"
      "\<not> now - lastSlapAt (gameState e) < 250"
    by (simp_all add: accepted_iff)
  have pe: "p = applyPowerUpEffects (powerUpsState e) (1 * of_int (calculateCombo now (gameState e)))"
    using p slap_accepted_full(1)[OF h] by simp
  have ce: "combo (gameState (snd (slap now e))) = calculateCombo now (gameState e)"
    by (rule slap_accepted(1)[OF h])
  show "p = \<lfloor>1 * real_of_int (combo (gameState (snd (slap now e))))
               * (if active (doublePoints (powerUpsState e)) then 2 else 1)
               * (if active (rapidFire (powerUpsState e)) then 1.5 else 1)
               * (if active (boost (powerUpsState e)) then 3 else 1)\<rfloor>"
    unfolding pe ce applyPowerUpEffects_def Let_def by simp
  show "combo (gameState (snd (slap now e))) \<le> 50"
    unfolding ce by (rule calculateCombo_le)
  show "p \<le> 450" unfolding pe by (rule slap_points_le)
  then show "p \<le> MAX_SCORE_INCREMENT" by (simp add: MAX_SCORE_INCREMENT_def)
next
  fix c :: int and ps assume "c \<le> 50"
  then show "applyPowerUpEffects ps (1 * real_of_int c) \<le> 450" by (rule applyPowerUpEffects_le)
qed

text \<open>
  The largest award: combo 49 going to 50 with doublePoints, rapidFire and boost all
  active gives 450 points.
\<close>

theorem points_within_ceiling_witness:
  "fst (slap 10000
     ((initialEngine 0)
        \<lparr>gameState := (initialGameState 0)\<lparr>combo := 49, lastSlapAt := 9000, lastComboTick := 9000\<rparr>,
         powerUpsState := initialPowerUpsState
           \<lparr>doublePoints := (lockedPowerUp 500)\<lparr>unlocked := True, active := True\<rparr>,
            rapidFire := (lockedPowerUp 1000)\<lparr>unlocked := True, active := True\<rparr>,
            boost := (lockedPowerUp 10000)\<lparr>unlocked := True, active := True\<rparr>\<rparr>\<rparr>))
     = Inr (Some 450)
   \<and> (450::int) \<le> MAX_SCORE_INCREMENT
   \<and> (50::int) \<le> 50
   \<and> applyPowerUpEffects initialPowerUpsState (1 * real_of_int 50) \<le> 450"
proof -
  let ?e = "(initialEngine 0)
        \<lparr>gameState := (initialGameState 0)\<lparr>combo := 49, lastSlapAt := 9000, lastComboTick := 9000\<rparr>,
         powerUpsState := initialPowerUpsState
           \<lparr>doublePoints := (lockedPowerUp 500)\<lparr>unlocked := True, active := True\<rparr>,
            rapidFire := (lockedPowerUp 1000)\<lparr>unlocked := True, active := True\<rparr>,
            boost := (lockedPowerUp 10000)\<lparr>unlocked := True, active := True\<rparr>\<rparr>\<rparr>"
  have r: "fst (slap 10000 ?e) = Inr (Some 450)" by code_simp
  have c: "(50::int) \<le> 50" by simp
  from points_within_ceiling[of 10000 ?e] r c show ?thesis by blast
qed

subsection \<open>Rejected slaps change nothing\<close>

text \<open>
  Claim C10: a slap that is not accepted is rejected either by the sliding window, and
  then it throws, or by the minimum interval of 250 ms, and then it returns silently;
  in both cases the whole game state (score, combo, lastSlapAt, lastComboTick,
  totalSlaps, achievements, statistics) is what it was before the call, and so are the
  power-ups and the score history.
\<close>

theorem rejected_slap_atomic:
  "\<not> accepted now e \<Longrightarrow>
     gameState (snd (slap now e)) = gameState e
     \<and> powerUpsState (snd (slap now e)) = powerUpsState e
     \<and> scoreHistory (snd (slap now e)) = scoreHistory e
     \<and> ((int (length (filter (\<lambda>time. now - time < 1000) (tapsWindow e))) \<ge> MAX_TAPS_PER_SECOND
           \<and> fst (slap now e) = Inl TapRateTooHigh)
        \<or> (int (length (filter (\<lambda>time. now - time < 1000) (tapsWindow e))) < MAX_TAPS_PER_SECOND
           \<and> now - lastSlapAt (gameState e) < MIN_INTERVAL \<and> MIN_INTERVAL = 250
           \<and> fst (slap now e) = Inr None))"
proof (cases "int (length (filter (\<lambda>time. now - time < 1000) (tapsWindow e))) \<ge> 4")
  case True
  then show ?thesis by (simp add: slap_rate_limited MAX_TAPS_PER_SECOND_def)
next
  case False
  assume "\<not> accepted now e"
  with False have "now - lastSlapAt (gameState e) < 250" by (simp add: accepted_iff)
  with False show ?thesis by (simp add: slap_too_soon engine_consts)
qed

theorem rejected_slap_atomic_witness:
  "\<not> accepted 10999 (foldl (\<lambda>e t. run_op (Slap t) e) (initialEngine 0) [10000, 10250, 10500, 10750])
   \<and> gameState (snd (slap 10999
        (foldl (\<lambda>e t. run_op (Slap t) e) (initialEngine 0) [10000, 10250, 10500, 10750])))
      = gameState (foldl (\<lambda>e t. run_op (Slap t) e) (initialEngine 0) [10000, 10250, 10500, 10750])
   \<and> \<not> accepted 10100 (run_op (Slap 10000) (initialEngine 0))
   \<and> gameState (snd (slap 10100 (run_op (Slap 10000) (initialEngine 0))))
      = gameState (run_op (Slap 10000) (initialEngine 0))"
proof -
  let ?e4 = "foldl (\<lambda>e t. run_op (Slap t) e) (initialEngine 0) [10000, 10250, 10500, 10750]"
  let ?e1 = "run_op (Slap 10000) (initialEngine 0)"
  have n4: "\<not> accepted 10999 ?e4" by code_simp
  have n1: "\<not> accepted 10100 ?e1" by code_simp
  from rejected_slap_atomic[OF n4] rejected_slap_atomic[OF n1] n4 n1 show ?thesis by blast
qed

section \<open>Properties of the arena server\<close>

subsection \<open>Rounding to a double\<close>

lemma pow2_powr: "pow2 k = 2 powr (of_int k)"
proof (cases "k \<ge> 0")
  case True
  then show ?thesis by (simp add: pow2_def powr_realpow[symmetric])
next
  case False
  then have "(2::real) powr (of_int k) = 1 / 2 powr (of_int (- k))"
    by (simp add: powr_minus_divide)
  also have "\<dots> = 1 / 2 ^ nat (- k)"
    using False by (simp add: powr_realpow[symmetric])
  finally show ?thesis using False by (simp add: pow2_def)
qed

lemma pow2_pos [simp]: "0 < pow2 k"
  by (simp add: pow2_powr)

lemma pow2_add: "pow2 (j + k) = pow2 j * pow2 k"
  by (simp add: pow2_powr powr_add)

lemma pow2_mono: "j \<le> k \<Longrightarrow> pow2 j \<le> pow2 k"
  by (simp add: pow2_powr)

lemma rne_cases: "rne q = \<lfloor>q\<rfloor> \<or> rne q = \<lfloor>q\<rfloor> + 1"
  by (simp add: rne_def Let_def)

lemma rne_err: "\<bar>of_int (rne q) - q\<bar> \<le> 1 / 2"
  unfolding rne_def Let_def by (auto; linarith)

lemma rne_lt: "q < of_int z - 1 / 2 \<Longrightarrow> rne q < z"
  unfolding rne_def Let_def by (auto; linarith)

lemma rne_ge: "of_int z - 1 / 2 \<le> q \<Longrightarrow> even z \<Longrightarrow> z \<le> rne q"
proof -
  assume q: "of_int z - 1 / 2 \<le> q" and ev: "even z"
  have n: "z - 1 \<le> \<lfloor>q\<rfloor>" using q by linarith
  show ?thesis
  proof (cases "z \<le> \<lfloor>q\<rfloor>")
    case True
    then show ?thesis using rne_cases[of q] by linarith
  next
    case False
    with n have eq: "\<lfloor>q\<rfloor> = z - 1" by simp
    then have odd: "odd \<lfloor>q\<rfloor>" using ev by simp
    have "\<not> q - of_int \<lfloor>q\<rfloor> < 1 / 2" using q eq by simp
    then show ?thesis using odd eq by (simp add: rne_def Let_def)
  qed
qed

lemma rne_nonneg: "0 \<le> q \<Longrightarrow> 0 \<le> rne q"
proof -
  assume "0 \<le> q"
  then have "0 \<le> \<lfloor>q\<rfloor>" by simp
  then show ?thesis using rne_cases[of q] by linarith
qed

lemma rne_of_int [simp]: "rne (of_int z) = z"
  by (simp add: rne_def)

lemma exponent_bounds:
  assumes "x \<noteq> 0"
  shows "pow2 (exponent x) \<le> \<bar>x\<bar>" "\<bar>x\<bar> < pow2 (exponent x + 1)"
proof -
  have pos: "0 < \<bar>x\<bar>" using assms by simp
  have "of_int (exponent x) \<le> log 2 \<bar>x\<bar>" by (simp add: exponent_def)
  then show "pow2 (exponent x) \<le> \<bar>x\<bar>"
    using pos by (simp add: pow2_powr powr_le_iff)
  have "log 2 \<bar>x\<bar> < of_int (exponent x + 1)" by (simp add: exponent_def)
  then show "\<bar>x\<bar> < pow2 (exponent x + 1)"
    using pos by (simp add: pow2_powr less_powr_iff)
qed

lemma exponent_eqI:
  assumes "pow2 e \<le> \<bar>x\<bar>" "\<bar>x\<bar> < pow2 (e + 1)"
  shows "exponent x = e"
proof -
  have pos: "0 < \<bar>x\<bar>" using assms(1) pow2_pos[of e] by linarith
  have "of_int e \<le> log 2 \<bar>x\<bar>"
    using assms(1) pos by (simp add: pow2_powr powr_le_iff)
  moreover have "log 2 \<bar>x\<bar> < of_int e + 1"
    using assms(2) pos by (simp add: pow2_powr less_powr_iff)
  ultimately show ?thesis unfolding exponent_def by (simp add: floor_eq_iff)
qed

lemma pow2_nonneg [simp]: "0 \<le> pow2 k"
  by (rule less_imp_le) simp

lemma fl_zero [simp]: "fl 0 = 0"
  by (simp add: fl_def)

lemma round_err:
  assumes "0 < p"
  shows "\<bar>of_int (rne (x / p)) * p - x\<bar> \<le> p / 2"
proof -
  have "of_int (rne (x / p)) * p - x = (of_int (rne (x / p)) - x / p) * p"
    using assms by (simp add: field_simps)
  then have "\<bar>of_int (rne (x / p)) * p - x\<bar> = \<bar>of_int (rne (x / p)) - x / p\<bar> * p"
    using assms by (simp add: abs_mult)
  also have "\<dots> \<le> (1 / 2) * p"
    using rne_err[of "x / p"] assms by (intro mult_right_mono) simp_all
  finally show ?thesis by simp
qed

text \<open>
  The rounding error of one operation: half a unit in the last place, which is at most
  \<open>\<bar>x\<bar> / 2 ^ 53\<close> for a normal result and \<open>1 / 2 ^ 1075\<close> for a subnormal one.
\<close>

lemma fl_err: "\<bar>fl x - x\<bar> \<le> \<bar>x\<bar> / 2 ^ 53 + 1 / 2 ^ 1075"
proof (cases "x = 0")
  case True
  then show ?thesis by simp
next
  case False
  let ?e = "exponent x"
  show ?thesis
  proof (cases "- 1074 \<le> ?e - 52")
    case True
    then have "max (?e - 52) (- 1074) = ?e - 52" by simp
    then have fl: "fl x = of_int (rne (x / pow2 (?e - 52))) * pow2 (?e - 52)"
      using False by (simp add: fl_def Let_def)
    have "pow2 (?e - 52) = pow2 ?e * pow2 (- 52)"
      using pow2_add[of ?e "- 52"] by simp
    also have "pow2 (- 52) = 1 / 2 ^ 52" by (simp add: pow2_def)
    finally have p: "pow2 (?e - 52) / 2 = pow2 ?e / 2 ^ 53" by simp
    have "\<bar>fl x - x\<bar> \<le> pow2 (?e - 52) / 2"
      unfolding fl by (rule round_err) simp
    also have "\<dots> \<le> \<bar>x\<bar> / 2 ^ 53"
      unfolding p using exponent_bounds(1)[OF False] by (simp add: divide_right_mono)
    finally show ?thesis by simp
  next
    case e: False
    then have "max (?e - 52) (- 1074) = - 1074" by simp
    then have fl: "fl x = of_int (rne (x / pow2 (- 1074))) * pow2 (- 1074)"
      using False by (simp add: fl_def Let_def)
    have p: "pow2 (- 1074) / 2 = 1 / 2 ^ 1075" by (simp add: pow2_def)
    have "\<bar>fl x - x\<bar> \<le> pow2 (- 1074) / 2"
      unfolding fl by (rule round_err) simp
    then have "\<bar>fl x - x\<bar> \<le> 1 / 2 ^ 1075" unfolding p .
    moreover have "0 \<le> \<bar>x\<bar> / 2 ^ 53" by simp
    ultimately show ?thesis by linarith
  qed
qed

lemma fl_nonneg:
  assumes "0 \<le> x"
  shows "0 \<le> fl x"
proof -
  have "0 \<le> rne (x / pow2 k)" for k
    using assms by (intro rne_nonneg divide_nonneg_pos) simp_all
  then have "0 \<le> of_int (rne (x / pow2 k)) * pow2 k" for k
    by (intro mult_nonneg_nonneg) simp_all
  then show ?thesis by (simp add: fl_def Let_def)
qed

lemma fl_eval:
  assumes "pow2 e \<le> \<bar>x\<bar>" "\<bar>x\<bar> < pow2 (e + 1)" "- 1022 \<le> e"
  shows "fl x = of_int (rne (x / pow2 (e - 52))) * pow2 (e - 52)"
proof -
  have "0 < pow2 e" by simp
  with assms(1) have "0 < \<bar>x\<bar>" by linarith
  then have "x \<noteq> 0" by simp
  moreover have "exponent x = e" using assms(1,2) by (rule exponent_eqI)
  moreover have "max (e - 52) (- 1074) = e - 52" using assms(3) by simp
  ultimately show ?thesis by (simp add: fl_def Let_def)
qed

text \<open>
  The test of the handler on the rounded square root: 60 is a double, the double below
  it is \<open>60 - 1 / 2 ^ 47\<close>, and the midpoint rounds to 60.
\<close>

lemma fl_lt_60_iff:
  assumes "0 \<le> x"
  shows "fl x < 60 \<longleftrightarrow> x < 60 - 1 / 2 ^ 48"
proof (cases "32 \<le> x \<and> x < 64")
  case True
  have "fl x = of_int (rne (x / pow2 (5 - 52))) * pow2 (5 - 52)"
    by (rule fl_eval) (use True in \<open>simp_all add: pow2_def\<close>)
  then have fl: "fl x = of_int (rne (x * 2 ^ 47)) / 2 ^ 47"
    by (simp add: pow2_def)
  show ?thesis
  proof
    assume "x < 60 - 1 / 2 ^ 48"
    then have "x * 2 ^ 47 < of_int (60 * 2 ^ 47) - 1 / 2" by (simp add: field_simps)
    then have "rne (x * 2 ^ 47) < 60 * 2 ^ 47" by (rule rne_lt)
    then have "(of_int (rne (x * 2 ^ 47)) :: real) < of_int (60 * 2 ^ 47)"
      by (simp only: of_int_less_iff)
    then show "fl x < 60" unfolding fl by (simp add: field_simps)
  next
    assume lt: "fl x < 60"
    show "x < 60 - 1 / 2 ^ 48"
    proof (rule ccontr)
      assume "\<not> x < 60 - 1 / 2 ^ 48"
      then have "of_int (60 * 2 ^ 47) - 1 / 2 \<le> x * 2 ^ 47" by (simp add: field_simps)
      then have "60 * 2 ^ 47 \<le> rne (x * 2 ^ 47)" by (rule rne_ge) simp
      then have "(of_int (60 * 2 ^ 47) :: real) \<le> of_int (rne (x * 2 ^ 47))"
        by (simp only: of_int_le_iff)
      then have "60 \<le> fl x" unfolding fl by (simp add: field_simps)
      with lt show False by simp
    qed
  qed
next
  case False
  have e: "\<bar>fl x - x\<bar> \<le> \<bar>x\<bar> / 2 ^ 53 + 1 / 2 ^ 1075" by (rule fl_err)
  have small: "(1::real) / 2 ^ 1075 \<le> 1" by simp
  show ?thesis
  proof (cases "x < 32")
    case True
    then have "fl x < 60" using e assms small by (simp add: abs_if split: if_splits)
    moreover have "x < 60 - 1 / 2 ^ 48" using True by simp
    ultimately show ?thesis by simp
  next
    case f: False
    with False have "64 \<le> x" by simp
    then have "\<not> fl x < 60" using e small by (simp add: abs_if split: if_splits)
    moreover have "\<not> x < 60 - 1 / 2 ^ 48" using \<open>64 \<le> x\<close> by simp
    ultimately show ?thesis by simp
  qed
qed

subsection \<open>The computed distance and the Euclidean distance\<close>

lemma fl_close_small:
  assumes "\<bar>x\<bar> \<le> 1000"
  shows "\<bar>fl x - x\<bar> \<le> 1 / 1000000000000"
proof -
  have "\<bar>fl x - x\<bar> \<le> \<bar>x\<bar> / 2 ^ 53 + 1 / 2 ^ 1075" by (rule fl_err)
  moreover have "\<bar>x\<bar> / 2 ^ 53 \<le> 1000 / 2 ^ 53" using assms by (simp add: divide_right_mono)
  moreover have "(1000::real) / 2 ^ 53 + 1 / 2 ^ 1075 \<le> 1 / 1000000000000" by simp
  ultimately show ?thesis by linarith
qed

lemma fl_close_big:
  assumes "\<bar>x\<bar> \<le> 1000000"
  shows "\<bar>fl x - x\<bar> \<le> 2 / 10000000000"
proof -
  have "\<bar>fl x - x\<bar> \<le> \<bar>x\<bar> / 2 ^ 53 + 1 / 2 ^ 1075" by (rule fl_err)
  moreover have "\<bar>x\<bar> / 2 ^ 53 \<le> 1000000 / 2 ^ 53" using assms by (simp add: divide_right_mono)
  moreover have "(1000000::real) / 2 ^ 53 + 1 / 2 ^ 1075 \<le> 2 / 10000000000" by simp
  ultimately show ?thesis by linarith
qed

text \<open>The rounded square of a rounded offset.\<close>

lemma square_err:
  assumes "\<bar>a\<bar> \<le> 660"
  shows "\<bar>fl (fl a * fl a) - a * a\<bar> \<le> 16 / 10000000000" "a * a \<le> 435600"
proof -
  have a1: "\<bar>fl a - a\<bar> \<le> 1 / 1000000000000" using assms by (intro fl_close_small) simp
  have b1: "\<bar>fl a\<bar> \<le> 661" using a1 assms by linarith
  have b2: "\<bar>fl a + a\<bar> \<le> 1321" using b1 assms by linarith
  have "fl a * fl a - a * a = (fl a - a) * (fl a + a)" by (simp add: algebra_simps)
  then have "\<bar>fl a * fl a - a * a\<bar> = \<bar>fl a - a\<bar> * \<bar>fl a + a\<bar>" by (simp add: abs_mult)
  also have "\<dots> \<le> (1 / 1000000000000) * 1321"
    using a1 b2 by (intro mult_mono) simp_all
  finally have sq: "\<bar>fl a * fl a - a * a\<bar> \<le> 14 / 10000000000" by simp
  have "a * a = \<bar>a\<bar> * \<bar>a\<bar>" by simp
  also have "\<dots> \<le> 660 * 660" using assms by (intro mult_mono) simp_all
  finally show aa: "a * a \<le> 435600" by simp
  have "0 \<le> a * a" by simp
  with sq aa have "\<bar>fl a * fl a\<bar> \<le> 1000000" by linarith
  then have "\<bar>fl (fl a * fl a) - fl a * fl a\<bar> \<le> 2 / 10000000000" by (rule fl_close_big)
  with sq show "\<bar>fl (fl a * fl a) - a * a\<bar> \<le> 16 / 10000000000" by linarith
qed

lemma sum_squares_err:
  assumes "\<bar>a\<bar> \<le> 660" "\<bar>b\<bar> \<le> 660"
  shows "\<bar>fl (fl (fl a * fl a) + fl (fl b * fl b)) - (a * a + b * b)\<bar> \<le> 4 / 1000000000"
    and "0 \<le> fl (fl (fl a * fl a) + fl (fl b * fl b))"
proof -
  note A = square_err[OF assms(1)] and B = square_err[OF assms(2)]
  have "0 \<le> a * a" "0 \<le> b * b" by simp_all
  with A B have "\<bar>fl (fl a * fl a) + fl (fl b * fl b)\<bar> \<le> 1000000" by linarith
  then have "\<bar>fl (fl (fl a * fl a) + fl (fl b * fl b)) - (fl (fl a * fl a) + fl (fl b * fl b))\<bar>
      \<le> 2 / 10000000000"
    by (rule fl_close_big)
  with A B show "\<bar>fl (fl (fl a * fl a) + fl (fl b * fl b)) - (a * a + b * b)\<bar> \<le> 4 / 1000000000"
    by linarith
  have "0 \<le> fl (fl a * fl a)" "0 \<le> fl (fl b * fl b)" by (simp_all add: fl_nonneg)
  then show "0 \<le> fl (fl (fl a * fl a) + fl (fl b * fl b))" by (intro fl_nonneg) simp
qed

text \<open>The computed test against the exact sum of squares.\<close>

lemma computed_out_of_range:
  assumes "\<bar>a\<bar> \<le> 660" "\<bar>b\<bar> \<le> 660"
    and "(60 + 1 / 10 ^ 9)\<^sup>2 \<le> a * a + b * b"
  shows "\<not> fl (sqrt (fl (fl (fl a * fl a) + fl (fl b * fl b)))) < 60"
proof -
  let ?s = "fl (fl (fl a * fl a) + fl (fl b * fl b))"
  note E = sum_squares_err[OF assms(1,2)]
  have "(3600::real) + 4 / 1000000000 \<le> (60 + 1 / 10 ^ 9)\<^sup>2" by (simp add: power2_eq_square)
  with E(1) assms(3) have "3600 \<le> ?s" by linarith
  then have "sqrt (60\<^sup>2) \<le> sqrt ?s" by (simp only: real_sqrt_le_iff) simp
  then have "60 \<le> sqrt ?s" by simp
  then have "\<not> sqrt ?s < 60 - 1 / 2 ^ 48" by simp
  moreover have "0 \<le> sqrt ?s" using E(2) by simp
  ultimately show ?thesis by (simp add: fl_lt_60_iff)
qed

lemma computed_in_range:
  assumes "\<bar>a\<bar> \<le> 660" "\<bar>b\<bar> \<le> 660"
    and "a * a + b * b \<le> (60 - 1 / 10 ^ 9)\<^sup>2"
  shows "fl (sqrt (fl (fl (fl a * fl a) + fl (fl b * fl b)))) < 60"
proof -
  let ?s = "fl (fl (fl a * fl a) + fl (fl b * fl b))"
  note E = sum_squares_err[OF assms(1,2)]
  have "(60 - 1 / 10 ^ 9)\<^sup>2 + 4 / 1000000000 < ((60::real) - 1 / 2 ^ 48)\<^sup>2"
    by (simp add: power2_eq_square)
  with E(1) assms(3) have "?s < (60 - 1 / 2 ^ 48)\<^sup>2" by linarith
  then have "sqrt ?s < sqrt ((60 - 1 / 2 ^ 48)\<^sup>2)" by (simp only: real_sqrt_less_iff)
  then have "sqrt ?s < 60 - 1 / 2 ^ 48" by simp
  moreover have "0 \<le> sqrt ?s" using E(2) by simp
  ultimately show ?thesis by (simp add: fl_lt_60_iff)
qed

text \<open>
  Inside the arena the computed distance is on the side of 60 that the Euclidean
  distance is on, as soon as the Euclidean distance is \<open>1 / 10 ^ 9\<close> away from 60.
\<close>

lemma dist_between_squares:
  "dist_between pa pt =
     fl (sqrt (fl (fl (fl (pos_x pt - pos_x pa) * fl (pos_x pt - pos_x pa))
                 + fl (fl (pos_y pt - pos_y pa) * fl (pos_y pt - pos_y pa)))))"
  by (simp add: dist_between_def Let_def)

lemma in_arena_offsets:
  assumes "in_arena pa" "in_arena pt"
  shows "\<bar>pos_x pt - pos_x pa\<bar> \<le> 660" "\<bar>pos_y pt - pos_y pa\<bar> \<le> 660"
  using assms by (simp_all add: in_arena_def abs_le_iff)

lemma dist_between_out_of_range:
  assumes "in_arena pa" "in_arena pt"
    and "60 + 1 / 10 ^ 9 \<le> sqrt ((pos_x pt - pos_x pa)\<^sup>2 + (pos_y pt - pos_y pa)\<^sup>2)"
  shows "\<not> dist_between pa pt < 60"
proof -
  let ?S = "(pos_x pt - pos_x pa)\<^sup>2 + (pos_y pt - pos_y pa)\<^sup>2"
  have "0 \<le> ?S" by simp
  have "(60 + 1 / 10 ^ 9)\<^sup>2 \<le> (sqrt ?S)\<^sup>2"
    using assms(3) by (intro power_mono) simp_all
  then have "(60 + 1 / 10 ^ 9)\<^sup>2 \<le> ?S" using \<open>0 \<le> ?S\<close> by simp
  then have "(60 + 1 / 10 ^ 9)\<^sup>2
      \<le> (pos_x pt - pos_x pa) * (pos_x pt - pos_x pa) + (pos_y pt - pos_y pa) * (pos_y pt - pos_y pa)"
    by (simp add: power2_eq_square)
  from computed_out_of_range[OF in_arena_offsets[OF assms(1,2)] this]
  show ?thesis by (simp add: dist_between_squares)
qed

lemma dist_between_in_range:
  assumes "in_arena pa" "in_arena pt"
    and "sqrt ((pos_x pt - pos_x pa)\<^sup>2 + (pos_y pt - pos_y pa)\<^sup>2) \<le> 60 - 1 / 10 ^ 9"
  shows "dist_between pa pt < 60"
proof -
  let ?S = "(pos_x pt - pos_x pa)\<^sup>2 + (pos_y pt - pos_y pa)\<^sup>2"
  have "0 \<le> ?S" by simp
  have "(sqrt ?S)\<^sup>2 \<le> (60 - 1 / 10 ^ 9)\<^sup>2"
    using assms(3) by (intro power_mono) simp_all
  then have "?S \<le> (60 - 1 / 10 ^ 9)\<^sup>2" using \<open>0 \<le> ?S\<close> by simp
  then have "(pos_x pt - pos_x pa) * (pos_x pt - pos_x pa) + (pos_y pt - pos_y pa) * (pos_y pt - pos_y pa)
      \<le> (60 - 1 / 10 ^ 9)\<^sup>2"
    by (simp add: power2_eq_square)
  from computed_in_range[OF in_arena_offsets[OF assms(1,2)] this]
  show ?thesis by (simp add: dist_between_squares)
qed

subsection \<open>The slap handler\<close>

lemma dist_between_self [simp]: "dist_between p p = 0"
  by (simp add: dist_between_def)

lemma dist_between_moved_fields [simp]:
  "dist_between (p\<lparr>gas := g, player_score := s, player_combo := c\<rparr>) q = dist_between p q"
  "dist_between p (q\<lparr>gas := g, player_score := s, player_combo := c\<rparr>) = dist_between p q"
  by (simp_all add: dist_between_def)

text \<open>A slap that is not accepted is dropped.\<close>

lemma on_slap_dropped:
  "\<not> slap_intent_accepted a st \<Longrightarrow> on_slap a tg st = st"
  by (auto simp: slap_intent_accepted_def on_slap_def split: option.splits)

text \<open>An accepted slap without a hit: only the attacker changes.\<close>

lemma on_slap_miss:
  assumes "players st a = Some pa" "alive pa" "gas pa \<ge> 20"
    and "tg = None \<or> (\<exists>t. tg = Some t \<and> (case players st t of None \<Rightarrow> True
            | Some pt \<Rightarrow> \<not> alive pt \<or> \<not> dist_between pa pt < 60))"
  shows "on_slap a tg st =
     st\<lparr>players := (players st)(a \<mapsto> pa\<lparr>gas := gas pa - 20, player_score := player_score pa + 10,
                                        player_combo := min (player_combo pa + 1) 50\<rparr>),
        sent := sent st @ [PlayerUpdate a (gas pa - 20) (player_score pa + 10) (min (player_combo pa + 1) 50)]\<rparr>"
  using assms
  by (auto simp: on_slap_def modify_player_def broadcast_def Let_def split: option.splits)

text \<open>An accepted slap that hits another player.\<close>

lemma on_slap_hit:
  assumes "players st a = Some pa" "alive pa" "gas pa \<ge> 20"
    and "players st t = Some pt" "t \<noteq> a" "alive pt" "dist_between pa pt < 60"
  shows "on_slap a (Some t) st =
     (if health pt - 25 \<le> 0
      then st\<lparr>players := (players st)
                 (a \<mapsto> pa\<lparr>gas := gas pa - 20,
                           player_combo := min (player_combo pa + 1) 50,
                           player_score := player_score pa + 10 + 50 * min (player_combo pa + 1) 50 + 200\<rparr>,
                  t \<mapsto> pt\<lparr>health := health pt - 25, alive := False\<rparr>),
              sent := sent st @ [PlayerDied t a, PlayerHit t (health pt - 25) a 25,
                PlayerUpdate a (gas pa - 20)
                  (player_score pa + 10 + 50 * min (player_combo pa + 1) 50 + 200)
                  (min (player_combo pa + 1) 50)]\<rparr>
      else st\<lparr>players := (players st)
                 (a \<mapsto> pa\<lparr>gas := gas pa - 20,
                           player_combo := min (player_combo pa + 1) 50,
                           player_score := player_score pa + 10 + 50 * min (player_combo pa + 1) 50\<rparr>,
                  t \<mapsto> pt\<lparr>health := health pt - 25\<rparr>),
              sent := sent st @ [PlayerHit t (health pt - 25) a 25,
                PlayerUpdate a (gas pa - 20)
                  (player_score pa + 10 + 50 * min (player_combo pa + 1) 50)
                  (min (player_combo pa + 1) 50)]\<rparr>)"
  using assms
  by (simp add: on_slap_def resolve_hit_def modify_player_def broadcast_def Let_def fun_upd_twist)

text \<open>An accepted slap aimed at the attacker itself.\<close>

lemma on_slap_self:
  assumes "players st a = Some pa" "alive pa" "gas pa \<ge> 20"
  shows "players (on_slap a (Some a) st) a =
     Some (pa\<lparr>gas := gas pa - 20,
              player_score := player_score pa + 10 + 50 * min (player_combo pa + 1) 50
                 + (if health pa - 25 \<le> 0 then 200 else 0),
              player_combo := min (player_combo pa + 1) 50,
              health := health pa - 25,
              alive := \<not> health pa - 25 \<le> 0\<rparr>)"
  using assms
  by (simp add: on_slap_def resolve_hit_def modify_player_def broadcast_def Let_def)

lemma on_slap_dead_unchanged:
  assumes "players st t = Some pt" "\<not> alive pt"
  shows "players (on_slap a tg st) t = Some pt"
proof (cases "slap_intent_accepted a st")
  case False
  then show ?thesis using assms by (simp add: on_slap_dropped)
next
  case True
  then obtain pa where pa: "players st a = Some pa" "alive pa" "gas pa \<ge> 20"
    by (auto simp: slap_intent_accepted_def split: option.splits)
  with assms have ne: "t \<noteq> a" by auto
  show ?thesis
  proof (cases "tg = None \<or> (\<exists>u. tg = Some u \<and> (case players st u of None \<Rightarrow> True
            | Some pu \<Rightarrow> \<not> alive pu \<or> \<not> dist_between pa pu < 60))")
    case True
    from on_slap_miss[OF pa True] assms ne show ?thesis by simp
  next
    case False
    then obtain u pu where u: "tg = Some u" "players st u = Some pu" "alive pu" "dist_between pa pu < 60"
      by (auto split: option.splits)
    with assms have tu: "t \<noteq> u" by auto
    show ?thesis
    proof (cases "u = a")
      case True
      with pa assms ne u show ?thesis
        by (simp add: on_slap_def resolve_hit_def modify_player_def broadcast_def Let_def)
    next
      case False
      from on_slap_hit[OF pa u(2) False u(3,4)] assms ne tu u(1) show ?thesis by simp
    qed
  qed
qed

lemma slaps_dead_unchanged:
  assumes "players st t = Some pt" "\<not> alive pt"
  shows "players (foldl (\<lambda>s (a, tg). on_message a (SlapIntent tg) s) st ms) t = Some pt"
  using assms
proof (induction ms arbitrary: st)
  case Nil
  then show ?case by simp
next
  case (Cons m ms)
  obtain a tg where m: "m = (a, tg)" by (cases m)
  from Cons.prems have "players (on_slap a tg st) t = Some pt" by (rule on_slap_dead_unchanged)
  from Cons.IH[OF this Cons.prems(2)] m show ?case by simp
qed

lemma target_after_slap:
  assumes "players st a = Some pa" "slap_intent_accepted a st" "players st t = Some pt"
  shows "\<exists>pt'. players (on_slap a (Some t) st) t = Some pt'
     \<and> (dist_between pa pt \<ge> 60 \<longrightarrow> health pt' = health pt)
     \<and> (dist_between pa pt < 60 \<and> alive pt \<longrightarrow>
          health pt' = health pt - 25 \<and> alive pt' = (\<not> health pt' \<le> 0))
     \<and> (\<not> alive pt \<longrightarrow> pt' = pt)"
proof -
  from assms(1,2) have pa: "players st a = Some pa" "alive pa" "gas pa \<ge> 20"
    by (auto simp: slap_intent_accepted_def)
  show ?thesis
  proof (cases "t = a")
    case True
    with assms pa have "pt = pa" by simp
    with on_slap_self[OF pa] True pa show ?thesis by simp
  next
    case ne: False
    show ?thesis
    proof (cases "alive pt \<and> dist_between pa pt < 60")
      case True
      with on_slap_hit[OF pa assms(3) ne] show ?thesis by simp
    next
      case False
      then have "Some t = None \<or> (\<exists>u. Some t = Some u \<and> (case players st u of None \<Rightarrow> True
            | Some pu \<Rightarrow> \<not> alive pu \<or> \<not> dist_between pa pu < 60))"
        using assms(3) by auto
      from on_slap_miss[OF pa this] False assms(3) ne show ?thesis by auto
    qed
  qed
qed

lemma hit_events_append [simp]: "hit_events (xs @ ys) = hit_events xs @ hit_events ys"
  by (simp add: hit_events_def)

lemma hit_step:
  assumes "players st a = Some pa" "alive pa" "gas pa \<ge> 20"
    and "players st b = Some pb" "b \<noteq> a" "alive pb" "dist_between pa pb < 60"
  shows "\<exists>pa'. players (on_slap a (Some b) st) a = Some pa' \<and> alive pa' \<and> gas pa' = gas pa - 20
      \<and> pos_x pa' = pos_x pa \<and> pos_y pa' = pos_y pa
      \<and> players (on_slap a (Some b) st) b
           = Some (pb\<lparr>health := health pb - 25, alive := \<not> health pb - 25 \<le> 0\<rparr>)
      \<and> hit_events (sent (on_slap a (Some b) st))
           = hit_events (sent st) @ (if health pb - 25 \<le> 0 then [''playerDied'', ''playerHit'']
                                      else [''playerHit''])"
  using assms by (simp add: on_slap_hit[OF assms] hit_events_def)

lemma dist_between_pos:
  "pos_x p' = pos_x p \<Longrightarrow> pos_y p' = pos_y p \<Longrightarrow> pos_x q' = pos_x q \<Longrightarrow> pos_y q' = pos_y q
   \<Longrightarrow> dist_between p' q' = dist_between p q"
  by (simp add: dist_between_def)

lemma four_hits:
  assumes a: "players st a = Some pa" "alive pa" "gas pa \<ge> 80"
    and b: "players st b = Some pb" "b \<noteq> a" "alive pb" "health pb = 100"
    and d: "dist_between pa pb < 60"
  shows "players ((on_slap a (Some b) ^^ 3) st) b = Some (pb\<lparr>health := 25, alive := True\<rparr>)"
    and "hit_events (sent ((on_slap a (Some b) ^^ 3) st))
           = hit_events (sent st) @ [''playerHit'', ''playerHit'', ''playerHit'']"
    and "players ((on_slap a (Some b) ^^ 4) st) b = Some (pb\<lparr>health := 0, alive := False\<rparr>)"
    and "hit_events (sent ((on_slap a (Some b) ^^ 4) st))
           = hit_events (sent st) @ [''playerHit'', ''playerHit'', ''playerHit'', ''playerDied'', ''playerHit'']"
proof -
  let ?f = "on_slap a (Some b)"
  from a have g0: "gas pa \<ge> 20" by simp
  from hit_step[OF a(1,2) g0 b(1,2,3) d] b(4)
  obtain p1 where 1: "players (?f st) a = Some p1" "alive p1" "gas p1 = gas pa - 20"
      "pos_x p1 = pos_x pa" "pos_y p1 = pos_y pa"
      "players (?f st) b = Some (pb\<lparr>health := 75, alive := True\<rparr>)"
      "hit_events (sent (?f st)) = hit_events (sent st) @ [''playerHit'']"
    by auto
  have d1: "dist_between p1 (pb\<lparr>health := 75, alive := True\<rparr>) < 60"
    using d 1(4,5) by (simp add: dist_between_def)
  have g1: "gas p1 \<ge> 20" using 1(3) a(3) by simp
  from hit_step[OF 1(1,2) g1 1(6) b(2) _ d1]
  obtain p2 where 2: "players (?f (?f st)) a = Some p2" "alive p2" "gas p2 = gas p1 - 20"
      "pos_x p2 = pos_x p1" "pos_y p2 = pos_y p1"
      "players (?f (?f st)) b = Some (pb\<lparr>health := 50, alive := True\<rparr>)"
      "hit_events (sent (?f (?f st))) = hit_events (sent (?f st)) @ [''playerHit'']"
    by auto
  have d2: "dist_between p2 (pb\<lparr>health := 50, alive := True\<rparr>) < 60"
    using d 1(4,5) 2(4,5) by (simp add: dist_between_def)
  have g2: "gas p2 \<ge> 20" using 1(3) 2(3) a(3) by simp
  from hit_step[OF 2(1,2) g2 2(6) b(2) _ d2]
  obtain p3 where 3: "players (?f (?f (?f st))) a = Some p3" "alive p3" "gas p3 = gas p2 - 20"
      "pos_x p3 = pos_x p2" "pos_y p3 = pos_y p2"
      "players (?f (?f (?f st))) b = Some (pb\<lparr>health := 25, alive := True\<rparr>)"
      "hit_events (sent (?f (?f (?f st)))) = hit_events (sent (?f (?f st))) @ [''playerHit'']"
    by auto
  have d3: "dist_between p3 (pb\<lparr>health := 25, alive := True\<rparr>) < 60"
    using d 1(4,5) 2(4,5) 3(4,5) by (simp add: dist_between_def)
  have g3: "gas p3 \<ge> 20" using 1(3) 2(3) 3(3) a(3) by simp
  from hit_step[OF 3(1,2) g3 3(6) b(2) _ d3]
  have 4: "players (?f (?f (?f (?f st)))) b = Some (pb\<lparr>health := 0, alive := False\<rparr>)"
      "hit_events (sent (?f (?f (?f (?f st))))) =
         hit_events (sent (?f (?f (?f st)))) @ [''playerDied'', ''playerHit'']"
    by auto
  have n3: "(?f ^^ 3) st = ?f (?f (?f st))" by (simp add: numeral_3_eq_3)
  have n4: "(?f ^^ 4) st = ?f (?f (?f (?f st)))" by (simp add: numeral_eq_Suc)
  show "players ((?f ^^ 3) st) b = Some (pb\<lparr>health := 25, alive := True\<rparr>)"
    unfolding n3 by (rule 3(6))
  show "hit_events (sent ((?f ^^ 3) st)) = hit_events (sent st) @ [''playerHit'', ''playerHit'', ''playerHit'']"
    unfolding n3 by (simp add: 1(7) 2(7) 3(7))
  show "players ((?f ^^ 4) st) b = Some (pb\<lparr>health := 0, alive := False\<rparr>)"
    unfolding n4 by (rule 4(1))
  show "hit_events (sent ((?f ^^ 4) st))
           = hit_events (sent st) @ [''playerHit'', ''playerHit'', ''playerHit'', ''playerDied'', ''playerHit'']"
    unfolding n4 by (simp add: 1(7) 2(7) 3(7) 4(2))
qed

lemma four_hits_attacker:
  assumes a: "players st a = Some pa" "alive pa" "gas pa \<ge> 100"
    and b: "players st b = Some pb" "b \<noteq> a" "alive pb" "health pb = 100"
    and d: "dist_between pa pb < 60"
  shows "slap_intent_accepted a ((on_slap a (Some b) ^^ 4) st)"
proof -
  let ?f = "on_slap a (Some b)"
  from a have g0: "gas pa \<ge> 20" by simp
  from hit_step[OF a(1,2) g0 b(1,2,3) d] b(4)
  obtain p1 where 1: "players (?f st) a = Some p1" "alive p1" "gas p1 = gas pa - 20"
      "pos_x p1 = pos_x pa" "pos_y p1 = pos_y pa"
      "players (?f st) b = Some (pb\<lparr>health := 75, alive := True\<rparr>)"
    by auto
  have d1: "dist_between p1 (pb\<lparr>health := 75, alive := True\<rparr>) < 60"
    using d 1(4,5) by (simp add: dist_between_def)
  have g1: "gas p1 \<ge> 20" using 1(3) a(3) by simp
  from hit_step[OF 1(1,2) g1 1(6) b(2) _ d1]
  obtain p2 where 2: "players (?f (?f st)) a = Some p2" "alive p2" "gas p2 = gas p1 - 20"
      "pos_x p2 = pos_x p1" "pos_y p2 = pos_y p1"
      "players (?f (?f st)) b = Some (pb\<lparr>health := 50, alive := True\<rparr>)"
    by auto
  have d2: "dist_between p2 (pb\<lparr>health := 50, alive := True\<rparr>) < 60"
    using d 1(4,5) 2(4,5) by (simp add: dist_between_def)
  have g2: "gas p2 \<ge> 20" using 1(3) 2(3) a(3) by simp
  from hit_step[OF 2(1,2) g2 2(6) b(2) _ d2]
  obtain p3 where 3: "players (?f (?f (?f st))) a = Some p3" "alive p3" "gas p3 = gas p2 - 20"
      "pos_x p3 = pos_x p2" "pos_y p3 = pos_y p2"
      "players (?f (?f (?f st))) b = Some (pb\<lparr>health := 25, alive := True\<rparr>)"
    by auto
  have d3: "dist_between p3 (pb\<lparr>health := 25, alive := True\<rparr>) < 60"
    using d 1(4,5) 2(4,5) 3(4,5) by (simp add: dist_between_def)
  have g3: "gas p3 \<ge> 20" using 1(3) 2(3) 3(3) a(3) by simp
  from hit_step[OF 3(1,2) g3 3(6) b(2) _ d3]
  obtain p4 where 4: "players (?f (?f (?f (?f st)))) a = Some p4" "alive p4" "gas p4 = gas p3 - 20"
    by auto
  have n4: "(?f ^^ 4) st = ?f (?f (?f (?f st)))" by (simp add: numeral_eq_Suc)
  show ?thesis
    unfolding n4 using 4 1(3) 2(3) 3(3) a(3) by (simp add: slap_intent_accepted_def)
qed

lemma on_message_slap: "on_message a (SlapIntent tg) = on_slap a tg"
  by (rule ext) simp

subsection \<open>Two players in the arena\<close>

lemma new_player_fields [simp]:
  "pos_x (new_player k x y) = x" "pos_y (new_player k x y) = y"
  "health (new_player k x y) = 100" "gas (new_player k x y) = 100" "alive (new_player k x y)"
  by (simp_all add: new_player_def)

lemma in_arena_new_player:
  "in_arena (new_player k x y) = (20 \<le> x \<and> x \<le> 680 \<and> 20 \<le> y \<and> y \<le> 480)"
  by (simp add: in_arena_def)

lemma in_arena_fields [simp]:
  "in_arena (p\<lparr>health := h, alive := b\<rparr>) = in_arena p"
  "in_arena (p\<lparr>gas := g, player_score := s, player_combo := c\<rparr>) = in_arena p"
  by (simp_all add: in_arena_def)

text \<open>Two players connect to the empty server.\<close>

lemma joined:
  "players (on_connection xb yb (on_connection xa ya emptyArena)) 1 = Some (new_player 1 xa ya)"
  "players (on_connection xb yb (on_connection xa ya emptyArena)) 2 = Some (new_player 2 xb yb)"
  "hit_events (sent (on_connection xb yb (on_connection xa ya emptyArena))) = []"
  "slap_intent_accepted 1 (on_connection xb yb (on_connection xa ya emptyArena))"
  by (simp_all add: on_connection_def emptyArena_def broadcast_def Let_def hit_events_def
      slap_intent_accepted_def numeral_2_eq_2)

text \<open>A move of a living player puts it where the message says, clamped to the arena.\<close>

lemma move_in_arena:
  assumes "players st k = Some p" "alive p"
  shows "players (on_message k (Move x y) st) k
           = Some (p\<lparr>pos_x := max 20 (min 680 x), pos_y := max 20 (min 480 y)\<rparr>)"
    and "in_arena (p\<lparr>pos_x := max 20 (min 680 x), pos_y := max 20 (min 480 y)\<rparr>)"
  using assms by (simp_all add: modify_player_def broadcast_def Let_def in_arena_def)

text \<open>The computed distance, operation by operation.\<close>

lemma dist_between_chain:
  assumes "fl (pos_x pt - pos_x pa) = dx" "fl (pos_y pt - pos_y pa) = dy"
    and "fl (dx * dx) = dxx" "fl (dy * dy) = dyy" "fl (dxx + dyy) = s"
  shows "dist_between pa pt = fl (sqrt s)"
  using assms by (simp add: dist_between_def Let_def)

text \<open>Thirty units apart.\<close>

lemma near_dist: "dist_between (new_player 1 100 100) (new_player 2 130 100) < 60"
proof (rule dist_between_in_range)
  show "sqrt ((pos_x (new_player 2 130 100) - pos_x (new_player 1 100 100))\<^sup>2
      + (pos_y (new_player 2 130 100) - pos_y (new_player 1 100 100))\<^sup>2) \<le> 60 - 1 / 10 ^ 9"
    by (rule real_le_lsqrt) (simp_all add: power2_eq_square)
qed (simp_all add: in_arena_new_player)


subsection \<open>Three slaps, then a fourth\<close>

text \<open>
  Claim C1, as the code has it: two connected players within melee range (the distance
  that the handler computes is below 60), the attacker alive with full gas, the target
  alive at full health (100). Each slap takes 25 health, so after three accepted slaps
  the target has 25 health left and is still alive, and the hit resolutions have
  broadcast playerHit three times. The fourth accepted slap brings the health to 0: the
  target is dead, and that slap broadcasts playerDied and then playerHit.
\<close>

theorem four_slaps_to_kill:
  assumes "players st a = Some pa" "alive pa" "gas pa = 100"
    and "players st b = Some pb" "b \<noteq> a" "alive pb" "health pb = 100"
    and "dist_between pa pb < 60"
  shows "map_option alive (players ((on_message a (SlapIntent (Some b)) ^^ 3) st) b) = Some True
     \<and> map_option health (players ((on_message a (SlapIntent (Some b)) ^^ 3) st) b) = Some 25
     \<and> hit_events (sent ((on_message a (SlapIntent (Some b)) ^^ 3) st))
         = hit_events (sent st) @ [''playerHit'', ''playerHit'', ''playerHit'']
     \<and> map_option alive (players ((on_message a (SlapIntent (Some b)) ^^ 4) st) b) = Some False
     \<and> map_option health (players ((on_message a (SlapIntent (Some b)) ^^ 4) st) b) = Some 0
     \<and> hit_events (sent ((on_message a (SlapIntent (Some b)) ^^ 4) st))
         = hit_events (sent st) @
           [''playerHit'', ''playerHit'', ''playerHit'', ''playerDied'', ''playerHit'']"
proof -
  from assms(3) have g: "gas pa \<ge> 80" by simp
  note h = four_hits[OF assms(1,2) g assms(4-8)]
  show ?thesis unfolding on_message_slap by (simp add: h)
qed

theorem four_slaps_to_kill_witness:
  "map_option alive (players ((on_message 1 (SlapIntent (Some 2)) ^^ 3)
       (on_connection 130 100 (on_connection 100 100 emptyArena))) 2) = Some True
   \<and> map_option alive (players ((on_message 1 (SlapIntent (Some 2)) ^^ 4)
       (on_connection 130 100 (on_connection 100 100 emptyArena))) 2) = Some False
   \<and> hit_events (sent ((on_message 1 (SlapIntent (Some 2)) ^^ 4)
       (on_connection 130 100 (on_connection 100 100 emptyArena))))
       = [''playerHit'', ''playerHit'', ''playerHit'', ''playerDied'', ''playerHit'']"
proof -
  have ne: "(2::nat) \<noteq> 1" by simp
  from four_slaps_to_kill[OF joined(1) _ _ joined(2) ne _ _ near_dist]
  show ?thesis by (simp add: joined(3))
qed

text \<open>
  Two players join 30 units apart; after three slaps the target is alive with 25 health
  and no death has been broadcast.
\<close>

theorem three_slaps_counterexample:
  "map_option alive (players ((on_message 1 (SlapIntent (Some 2)) ^^ 3)
       (on_connection 130 100 (on_connection 100 100 emptyArena))) 2) = Some True
   \<and> map_option health (players ((on_message 1 (SlapIntent (Some 2)) ^^ 3)
       (on_connection 130 100 (on_connection 100 100 emptyArena))) 2) = Some 25
   \<and> hit_events (sent ((on_message 1 (SlapIntent (Some 2)) ^^ 3)
       (on_connection 130 100 (on_connection 100 100 emptyArena))))
       = [''playerHit'', ''playerHit'', ''playerHit'']"
proof -
  have ne: "(2::nat) \<noteq> 1" by simp
  note h = four_hits[OF joined(1) _ _ joined(2) ne _ _ near_dist, simplified]
  show ?thesis unfolding on_message_slap by (simp add: h joined(3))
qed

subsection \<open>The hit rule\<close>

text \<open>Positions for the examples: the computed distance, operation by operation.\<close>

lemma fl_60: "fl 60 = 60"
  by (subst fl_eval[where e = 5]) (simp_all add: pow2_def rne_def Let_def)

lemma sqrt_3600: "sqrt 3600 = 60"
  by (rule real_sqrt_unique) simp_all

text \<open>Offsets 36 and 48: the distance is 60 and every operation is exact.\<close>

lemma boundary_dist: "dist_between (new_player 1 100 100) (new_player 2 136 148) = 60"
proof -
  have dx: "fl (pos_x (new_player 2 136 148) - pos_x (new_player 1 100 100)) = 36"
    by (subst fl_eval[where e = 5]) (simp_all add: pow2_def rne_def Let_def)
  have dy: "fl (pos_y (new_player 2 136 148) - pos_y (new_player 1 100 100)) = 48"
    by (subst fl_eval[where e = 5]) (simp_all add: pow2_def rne_def Let_def)
  have dxx: "fl (36 * 36) = 1296"
    by (subst fl_eval[where e = 10]) (simp_all add: pow2_def rne_def Let_def)
  have dyy: "fl (48 * 48) = 2304"
    by (subst fl_eval[where e = 11]) (simp_all add: pow2_def rne_def Let_def)
  have s: "fl (1296 + 2304) = 3600"
    by (subst fl_eval[where e = 11]) (simp_all add: pow2_def rne_def Let_def)
  from dist_between_chain[OF dx dy dxx dyy s] show ?thesis by (simp add: sqrt_3600 fl_60)
qed

text \<open>
  The target at (158.76, 112.13517202185453), written as the doubles these decimals
  denote, and the attacker at (100, 100): the exact sum of squares is below 3600, the
  rounded sum is 3600 and the computed distance is 60.
\<close>

lemma rounded_up_dist:
  "dist_between (new_player 1 100 100)
     (new_player 2 (698233864102871 / 2 ^ 42) (7890811233324227 / 2 ^ 46)) = 60"
proof -
  have dx: "fl (pos_x (new_player 2 (698233864102871 / 2 ^ 42) (7890811233324227 / 2 ^ 46))
                - pos_x (new_player 1 100 100)) = 258429212992471 / 2 ^ 42"
    by (subst fl_eval[where e = 5]) (simp_all add: pow2_def rne_def Let_def)
  have dy: "fl (pos_y (new_player 2 (698233864102871 / 2 ^ 42) (7890811233324227 / 2 ^ 46))
                - pos_y (new_player 1 100 100)) = 853936815557827 / 2 ^ 46"
    by (subst fl_eval[where e = 3]) (simp_all add: pow2_def rne_def Let_def)
  have dxx: "fl (258429212992471 / 2 ^ 42 * (258429212992471 / 2 ^ 42))
      = 7592650277718797 / 2 ^ 41"
    by (subst fl_eval[where e = 11]) (simp_all add: pow2_def rne_def Let_def)
  have dyy: "fl (853936815557827 / 2 ^ 46 * (853936815557827 / 2 ^ 46))
      = 5181335076294447 / 2 ^ 45"
    by (subst fl_eval[where e = 7]) (simp_all add: pow2_def rne_def Let_def)
  have s: "fl (7592650277718797 / 2 ^ 41 + 5181335076294447 / 2 ^ 45) = 3600"
    by (subst fl_eval[where e = 11]) (simp_all add: pow2_def rne_def Let_def)
  from dist_between_chain[OF dx dy dxx dyy s] show ?thesis by (simp add: sqrt_3600 fl_60)
qed

text \<open>
  The attacker at (29.000442169762945, 231.3525064681915) and the target at
  (88.73812666840303, 236.95688428744464), as doubles: the exact sum of squares is above
  3600, the rounded sum is the double below 3600 and the computed distance is below 60.
\<close>

lemma rounded_down_dist:
  "dist_between (new_player 1 (8162898784332751 / 2 ^ 48) (4069996335630381 / 2 ^ 44))
     (new_player 2 (1561097633583499 / 2 ^ 44) (8337179185779761 / 2 ^ 45)) < 60"
proof -
  have dx: "fl (pos_x (new_player 2 (1561097633583499 / 2 ^ 44) (8337179185779761 / 2 ^ 45))
                - pos_x (new_player 1 (8162898784332751 / 2 ^ 48) (4069996335630381 / 2 ^ 44)))
      = 525458229781351 / 2 ^ 43"
    by (subst fl_eval[where e = 5]) (simp_all add: pow2_def rne_def Let_def)
  have dy: "fl (pos_y (new_player 2 (1561097633583499 / 2 ^ 44) (8337179185779761 / 2 ^ 45))
                - pos_y (new_player 1 (8162898784332751 / 2 ^ 48) (4069996335630381 / 2 ^ 44)))
      = 197186514518999 / 2 ^ 45"
    by (subst fl_eval[where e = 2]) (simp_all add: pow2_def rne_def Let_def)
  have dxx: "fl (525458229781351 / 2 ^ 43 * (525458229781351 / 2 ^ 43))
      = 7847414486973067 / 2 ^ 41"
    by (subst fl_eval[where e = 11]) (simp_all add: pow2_def rne_def Let_def)
  have dyy: "fl (197186514518999 / 2 ^ 45 * (197186514518999 / 2 ^ 45))
      = 8840861825808907 / 2 ^ 48"
    by (subst fl_eval[where e = 4]) (simp_all add: pow2_def rne_def Let_def)
  have s: "fl (7847414486973067 / 2 ^ 41 + 8840861825808907 / 2 ^ 48)
      = 7916483719987199 / 2 ^ 41"
    by (subst fl_eval[where e = 11]) (simp_all add: pow2_def rne_def Let_def)
  have "sqrt (7916483719987199 / 2 ^ 41) < 60 - 1 / 2 ^ 48"
    by (rule real_less_lsqrt) (simp_all add: power2_eq_square)
  moreover have "0 \<le> sqrt (7916483719987199 / 2 ^ 41)" by simp
  ultimately have "fl (sqrt (7916483719987199 / 2 ^ 41)) < 60" by (simp only: fl_lt_60_iff)
  with dist_between_chain[OF dx dy dxx dyy s] show ?thesis by simp
qed

text \<open>Two players connect and move.\<close>

lemma joined_moved:
  assumes "20 \<le> x1" "x1 \<le> 680" "20 \<le> y1" "y1 \<le> 480"
    and "20 \<le> x2" "x2 \<le> 680" "20 \<le> y2" "y2 \<le> 480"
  shows "players (on_message 2 (Move x2 y2) (on_message 1 (Move x1 y1)
            (on_connection 100 100 (on_connection 100 100 emptyArena)))) 1
          = Some (new_player 1 x1 y1)"
    and "players (on_message 2 (Move x2 y2) (on_message 1 (Move x1 y1)
            (on_connection 100 100 (on_connection 100 100 emptyArena)))) 2
          = Some (new_player 2 x2 y2)"
    and "slap_intent_accepted 1 (on_message 2 (Move x2 y2) (on_message 1 (Move x1 y1)
            (on_connection 100 100 (on_connection 100 100 emptyArena))))"
  using assms
  by (simp_all add: on_connection_def emptyArena_def broadcast_def Let_def modify_player_def
      slap_intent_accepted_def new_player_def numeral_2_eq_2)

text \<open>
  Claim C4, as the code has it. For an accepted slap intent aimed at a connected
  target, the handler compares the distance it computes in double arithmetic with 60:
  a target at computed distance 60 or more keeps its health; a living target at
  computed distance below 60 loses exactly 25 health and is alive afterwards exactly
  when the new health is above 0; a dead target is left as it is by this slap and by
  every later sequence of slap intents from any player, so the flag never flips back.
  For two players inside the arena the computed distance decides as the Euclidean
  distance does whenever the Euclidean distance is at least \<open>60 + 1 / 10 ^ 9\<close> (the
  target keeps its health) or at most \<open>60 - 1 / 10 ^ 9\<close> (a living target loses 25).
\<close>

theorem arena_hit_rule:
  assumes "players st a = Some pa" "slap_intent_accepted a st" "players st t = Some pt"
  shows "\<exists>pt'. players (on_message a (SlapIntent (Some t)) st) t = Some pt'
     \<and> (dist_between pa pt \<ge> 60 \<longrightarrow> health pt' = health pt)
     \<and> (dist_between pa pt < 60 \<and> alive pt \<longrightarrow>
          health pt' = health pt - 25 \<and> alive pt' = (\<not> health pt' \<le> 0))
     \<and> (in_arena pa \<and> in_arena pt
          \<and> 60 + 1 / 10 ^ 9 \<le> sqrt ((pos_x pt - pos_x pa)\<^sup>2 + (pos_y pt - pos_y pa)\<^sup>2)
          \<longrightarrow> health pt' = health pt)
     \<and> (in_arena pa \<and> in_arena pt
          \<and> sqrt ((pos_x pt - pos_x pa)\<^sup>2 + (pos_y pt - pos_y pa)\<^sup>2) \<le> 60 - 1 / 10 ^ 9
          \<and> alive pt
          \<longrightarrow> health pt' = health pt - 25 \<and> alive pt' = (\<not> health pt' \<le> 0))
     \<and> (\<not> alive pt \<longrightarrow> pt' = pt
          \<and> (\<forall>ms. players (foldl (\<lambda>s (a, tg). on_message a (SlapIntent tg) s) st ms) t = Some pt))"
proof -
  from target_after_slap[OF assms] obtain pt' where
    p: "players (on_slap a (Some t) st) t = Some pt'"
      "dist_between pa pt \<ge> 60 \<longrightarrow> health pt' = health pt"
      "dist_between pa pt < 60 \<and> alive pt \<longrightarrow>
          health pt' = health pt - 25 \<and> alive pt' = (\<not> health pt' \<le> 0)"
      "\<not> alive pt \<longrightarrow> pt' = pt"
    by blast
  have far: "in_arena pa \<and> in_arena pt
          \<and> 60 + 1 / 10 ^ 9 \<le> sqrt ((pos_x pt - pos_x pa)\<^sup>2 + (pos_y pt - pos_y pa)\<^sup>2)
          \<longrightarrow> health pt' = health pt"
    using dist_between_out_of_range[of pa pt] p(2) by auto
  have near: "in_arena pa \<and> in_arena pt
          \<and> sqrt ((pos_x pt - pos_x pa)\<^sup>2 + (pos_y pt - pos_y pa)\<^sup>2) \<le> 60 - 1 / 10 ^ 9
          \<and> alive pt
          \<longrightarrow> health pt' = health pt - 25 \<and> alive pt' = (\<not> health pt' \<le> 0)"
    using dist_between_in_range[of pa pt] p(3) by blast
  have "\<not> alive pt \<longrightarrow>
      (\<forall>ms. players (foldl (\<lambda>s (a, tg). on_message a (SlapIntent tg) s) st ms) t = Some pt)"
    using slaps_dead_unchanged[OF assms(3)] by blast
  with p far near show ?thesis by (intro exI[of _ pt']) simp
qed

text \<open>
  Slaps from (100, 100): at the targets (300, 100) and (140, 150) the Euclidean distance
  is above 60 and the health stays 100; at (130, 100) and (130, 140) it is below 60 and
  the health drops to 75; at (136, 148) it is 60, as is the computed distance, and the
  health stays 100; a target killed by four slaps is left as it is by a fifth.
\<close>

theorem arena_hit_rule_witness:
  "map_option health (players (on_message 1 (SlapIntent (Some 2))
       (on_connection 300 100 (on_connection 100 100 emptyArena))) 2) = Some 100
   \<and> map_option health (players (on_message 1 (SlapIntent (Some 2))
       (on_connection 140 150 (on_connection 100 100 emptyArena))) 2) = Some 100
   \<and> map_option health (players (on_message 1 (SlapIntent (Some 2))
       (on_connection 130 100 (on_connection 100 100 emptyArena))) 2) = Some 75
   \<and> map_option alive (players (on_message 1 (SlapIntent (Some 2))
       (on_connection 130 100 (on_connection 100 100 emptyArena))) 2) = Some True
   \<and> map_option health (players (on_message 1 (SlapIntent (Some 2))
       (on_connection 130 140 (on_connection 100 100 emptyArena))) 2) = Some 75
   \<and> map_option health (players (on_message 1 (SlapIntent (Some 2))
       (on_connection 136 148 (on_connection 100 100 emptyArena))) 2) = Some 100
   \<and> players (on_message 1 (SlapIntent (Some 2))
       ((on_slap 1 (Some 2) ^^ 4) (on_connection 130 100 (on_connection 100 100 emptyArena)))) 2
     = players ((on_slap 1 (Some 2) ^^ 4) (on_connection 130 100 (on_connection 100 100 emptyArena))) 2
   \<and> map_option alive (players
       ((on_slap 1 (Some 2) ^^ 4) (on_connection 130 100 (on_connection 100 100 emptyArena))) 2)
     = Some False"
proof -
  let ?st = "\<lambda>x y. on_connection x y (on_connection 100 100 emptyArena)"
  let ?dead = "(on_slap 1 (Some 2) ^^ 4) (?st 130 100)"
  have ne: "(2::nat) \<noteq> 1" by simp
  have a: "in_arena (new_player 1 100 100)" by (simp add: in_arena_new_player)
  have far1: "in_arena (new_player 2 300 100)"
    "60 + 1 / 10 ^ 9 \<le> sqrt ((pos_x (new_player 2 300 100) - pos_x (new_player 1 100 100))\<^sup>2
        + (pos_y (new_player 2 300 100) - pos_y (new_player 1 100 100))\<^sup>2)"
    by (simp add: in_arena_new_player, rule real_le_rsqrt) (simp add: power2_eq_square)
  have far2: "in_arena (new_player 2 140 150)"
    "60 + 1 / 10 ^ 9 \<le> sqrt ((pos_x (new_player 2 140 150) - pos_x (new_player 1 100 100))\<^sup>2
        + (pos_y (new_player 2 140 150) - pos_y (new_player 1 100 100))\<^sup>2)"
    by (simp add: in_arena_new_player, rule real_le_rsqrt) (simp add: power2_eq_square)
  have near1: "in_arena (new_player 2 130 100)"
    "sqrt ((pos_x (new_player 2 130 100) - pos_x (new_player 1 100 100))\<^sup>2
        + (pos_y (new_player 2 130 100) - pos_y (new_player 1 100 100))\<^sup>2) \<le> 60 - 1 / 10 ^ 9"
    by (simp add: in_arena_new_player, rule real_le_lsqrt) (simp_all add: power2_eq_square)
  have near2: "in_arena (new_player 2 130 140)"
    "sqrt ((pos_x (new_player 2 130 140) - pos_x (new_player 1 100 100))\<^sup>2
        + (pos_y (new_player 2 130 140) - pos_y (new_player 1 100 100))\<^sup>2) \<le> 60 - 1 / 10 ^ 9"
    by (simp add: in_arena_new_player, rule real_le_lsqrt) (simp_all add: power2_eq_square)
  note j1 = joined[where xa = 100 and ya = 100 and xb = 300 and yb = 100]
  from arena_hit_rule[OF j1(1) j1(4) j1(2)] a far1
  have 1: "map_option health (players (on_message 1 (SlapIntent (Some 2)) (?st 300 100)) 2) = Some 100"
    by auto
  note j2 = joined[where xa = 100 and ya = 100 and xb = 140 and yb = 150]
  from arena_hit_rule[OF j2(1) j2(4) j2(2)] a far2
  have 2: "map_option health (players (on_message 1 (SlapIntent (Some 2)) (?st 140 150)) 2) = Some 100"
    by auto
  note j3 = joined[where xa = 100 and ya = 100 and xb = 130 and yb = 100]
  from arena_hit_rule[OF j3(1) j3(4) j3(2)] a near1
  have 3: "map_option health (players (on_message 1 (SlapIntent (Some 2)) (?st 130 100)) 2) = Some 75"
    "map_option alive (players (on_message 1 (SlapIntent (Some 2)) (?st 130 100)) 2) = Some True"
    by auto
  note j4 = joined[where xa = 100 and ya = 100 and xb = 130 and yb = 140]
  from arena_hit_rule[OF j4(1) j4(4) j4(2)] a near2
  have 4: "map_option health (players (on_message 1 (SlapIntent (Some 2)) (?st 130 140)) 2) = Some 75"
    by auto
  note j5 = joined[where xa = 100 and ya = 100 and xb = 136 and yb = 148]
  from arena_hit_rule[OF j5(1) j5(4) j5(2)] boundary_dist
  have 5: "map_option health (players (on_message 1 (SlapIntent (Some 2)) (?st 136 148)) 2) = Some 100"
    by auto
  have d: "players ?dead 2 = Some ((new_player 2 130 100)\<lparr>health := 0, alive := False\<rparr>)"
    by (rule four_hits(3)[OF joined(1) _ _ joined(2) ne _ _ near_dist]) simp_all
  have acc_dead: "slap_intent_accepted 1 ?dead"
    by (rule four_hits_attacker[OF joined(1) _ _ joined(2) ne _ _ near_dist]) simp_all
  then obtain p4 where p4: "players ?dead 1 = Some p4"
    by (auto simp: slap_intent_accepted_def split: option.splits)
  from arena_hit_rule[OF p4 acc_dead d]
  have 6: "players (on_message 1 (SlapIntent (Some 2)) ?dead) 2 = players ?dead 2"
    unfolding d by auto
  from 1 2 3 4 5 6 d show ?thesis by simp
qed

text \<open>
  The Euclidean distance does not decide at the boundary. With the attacker at
  (100, 100) and a living target at (158.76, 112.13517202185453) the Euclidean distance
  is below 60 and the accepted slap leaves the target's health at 100. With the attacker
  moved to (29.000442169762945, 231.3525064681915) and the target moved to
  (88.73812666840303, 236.95688428744464) the Euclidean distance is 60 or more and the
  accepted slap takes 25 health. The coordinates are written as the doubles that these
  decimals denote.
\<close>

theorem euclidean_range_counterexample:
  "players (on_connection (698233864102871 / 2 ^ 42) (7890811233324227 / 2 ^ 46)
       (on_connection 100 100 emptyArena)) 1 = Some (new_player 1 100 100)
   \<and> players (on_connection (698233864102871 / 2 ^ 42) (7890811233324227 / 2 ^ 46)
       (on_connection 100 100 emptyArena)) 2
       = Some (new_player 2 (698233864102871 / 2 ^ 42) (7890811233324227 / 2 ^ 46))
   \<and> slap_intent_accepted 1 (on_connection (698233864102871 / 2 ^ 42) (7890811233324227 / 2 ^ 46)
       (on_connection 100 100 emptyArena))
   \<and> sqrt ((698233864102871 / 2 ^ 42 - 100)\<^sup>2 + (7890811233324227 / 2 ^ 46 - 100)\<^sup>2) < 60
   \<and> map_option health (players (on_message 1 (SlapIntent (Some 2))
       (on_connection (698233864102871 / 2 ^ 42) (7890811233324227 / 2 ^ 46)
         (on_connection 100 100 emptyArena))) 2) = Some 100
   \<and> players (on_message 2 (Move (1561097633583499 / 2 ^ 44) (8337179185779761 / 2 ^ 45))
       (on_message 1 (Move (8162898784332751 / 2 ^ 48) (4069996335630381 / 2 ^ 44))
         (on_connection 100 100 (on_connection 100 100 emptyArena)))) 1
       = Some (new_player 1 (8162898784332751 / 2 ^ 48) (4069996335630381 / 2 ^ 44))
   \<and> players (on_message 2 (Move (1561097633583499 / 2 ^ 44) (8337179185779761 / 2 ^ 45))
       (on_message 1 (Move (8162898784332751 / 2 ^ 48) (4069996335630381 / 2 ^ 44))
         (on_connection 100 100 (on_connection 100 100 emptyArena)))) 2
       = Some (new_player 2 (1561097633583499 / 2 ^ 44) (8337179185779761 / 2 ^ 45))
   \<and> slap_intent_accepted 1
       (on_message 2 (Move (1561097633583499 / 2 ^ 44) (8337179185779761 / 2 ^ 45))
         (on_message 1 (Move (8162898784332751 / 2 ^ 48) (4069996335630381 / 2 ^ 44))
           (on_connection 100 100 (on_connection 100 100 emptyArena))))
   \<and> 60 \<le> sqrt ((1561097633583499 / 2 ^ 44 - 8162898784332751 / 2 ^ 48)\<^sup>2
                + (8337179185779761 / 2 ^ 45 - 4069996335630381 / 2 ^ 44)\<^sup>2)
   \<and> map_option health (players (on_message 1 (SlapIntent (Some 2))
       (on_message 2 (Move (1561097633583499 / 2 ^ 44) (8337179185779761 / 2 ^ 45))
         (on_message 1 (Move (8162898784332751 / 2 ^ 48) (4069996335630381 / 2 ^ 44))
           (on_connection 100 100 (on_connection 100 100 emptyArena))))) 2) = Some 75"
proof -
  let ?A = "on_connection (698233864102871 / 2 ^ 42) (7890811233324227 / 2 ^ 46)
       (on_connection 100 100 emptyArena)"
  let ?B = "on_message 2 (Move (1561097633583499 / 2 ^ 44) (8337179185779761 / 2 ^ 45))
       (on_message 1 (Move (8162898784332751 / 2 ^ 48) (4069996335630381 / 2 ^ 44))
         (on_connection 100 100 (on_connection 100 100 emptyArena)))"
  note jA = joined[where xa = 100 and ya = 100 and xb = "698233864102871 / 2 ^ 42"
      and yb = "7890811233324227 / 2 ^ 46"]
  have jB: "players ?B 1 = Some (new_player 1 (8162898784332751 / 2 ^ 48) (4069996335630381 / 2 ^ 44))"
    "players ?B 2 = Some (new_player 2 (1561097633583499 / 2 ^ 44) (8337179185779761 / 2 ^ 45))"
    "slap_intent_accepted 1 ?B"
    by (rule joined_moved; simp)+
  have eA: "sqrt ((698233864102871 / 2 ^ 42 - 100)\<^sup>2 + (7890811233324227 / 2 ^ 46 - 100)\<^sup>2) < 60"
    by (rule real_less_lsqrt) (simp_all add: power2_eq_square)
  have eB: "60 \<le> sqrt ((1561097633583499 / 2 ^ 44 - 8162898784332751 / 2 ^ 48)\<^sup>2
                + (8337179185779761 / 2 ^ 45 - 4069996335630381 / 2 ^ 44)\<^sup>2)"
    by (rule real_le_rsqrt) (simp add: power2_eq_square)
  have ne: "(2::nat) \<noteq> 1" by simp
  have mA: "Some 2 = None \<or> (\<exists>t. Some 2 = Some t \<and> (case players ?A t of None \<Rightarrow> True
            | Some pt \<Rightarrow> \<not> alive pt \<or> \<not> dist_between (new_player 1 100 100) pt < 60))"
    using jA(2) rounded_up_dist by simp
  have hA: "map_option health (players (on_message 1 (SlapIntent (Some 2)) ?A) 2) = Some 100"
    using on_slap_miss[OF jA(1) _ _ mA] jA(2) by simp
  have hB: "map_option health (players (on_message 1 (SlapIntent (Some 2)) ?B) 2) = Some 75"
    using on_slap_hit[OF jB(1) _ _ jB(2) ne _ rounded_down_dist] by simp
  from jA(1,2,4) eA hA jB eB hB show ?thesis by blast
qed

section \<open>Properties of the sync queue\<close>

lemma set_remove_first: "set (remove_first P xs) \<subseteq> set xs"
  by (induction xs) auto

lemma distinct_map_remove_first:
  "distinct (map f xs) \<Longrightarrow> distinct (map f (remove_first P xs))"
proof (induction xs)
  case Nil
  then show ?case by simp
next
  case (Cons x xs)
  then show ?case using set_remove_first[of P xs] by auto
qed

lemma remove_first_removes:
  "distinct (map f xs) \<Longrightarrow> x \<notin> set (remove_first (\<lambda>y. f y = f x) xs)"
proof (induction xs)
  case Nil
  then show ?case by simp
next
  case (Cons y ys)
  show ?case
  proof (cases "f y = f x")
    case True
    with Cons.prems show ?thesis by (auto simp: image_iff)
  next
    case False
    with Cons show ?thesis by auto
  qed
qed

text \<open>What one settled result does to the queue and to the store.\<close>

lemma dequeueSync_fields:
  "store (dequeueSync r st) = store st"
  "nextRef (dequeueSync r st) = nextRef st"
  "onlineStatus (dequeueSync r st) = onlineStatus st"
  "syncInProgress (dequeueSync r st) = syncInProgress st"
  by (simp_all add: dequeueSync_def)

lemma dequeueSync_queue_cases:
  "syncQueue (dequeueSync q st) = syncQueue st \<or>
   syncQueue (dequeueSync q st) =
     remove_first (\<lambda>x. item_id (store st x) = item_id (store st q)) (syncQueue st)"
  by (simp add: dequeueSync_def)

lemma dequeueSync_queue_subset: "set (syncQueue (dequeueSync q st)) \<subseteq> set (syncQueue st)"
  using dequeueSync_queue_cases[of q st] set_remove_first[of _ "syncQueue st"] by fastforce

lemma dequeueSync_same_ids:
  assumes "\<And>x. item_id (store st' x) = item_id (store st x)" "syncQueue st' = syncQueue st"
  shows "syncQueue (dequeueSync r st') = syncQueue (dequeueSync r st)"
  by (simp add: dequeueSync_def assms)

lemma record_failure_fields:
  "item_id (store (record_failure res q st) x) = item_id (store st x)"
  "maxAttempts (store (record_failure res q st) x) = maxAttempts (store st x)"
  "x \<noteq> q \<Longrightarrow> store (record_failure res q st) x = store st x"
  "attempts (store (record_failure res q st) q) = attempts (store st q) + 1"
  "syncQueue (record_failure res q st) = syncQueue st"
  "nextRef (record_failure res q st) = nextRef st"
  by (simp_all add: record_failure_def)

lemma settle_unfold:
  "settle res q st =
      (if succeeded res then dequeueSync q st
       else if attempts (store st q) + 1 \<ge> maxAttempts (store st q)
       then dequeueSync q (record_failure res q st) else record_failure res q st)"
  by (simp add: settle_def Let_def record_failure_fields)

lemma dequeueSync_record_failure:
  "syncQueue (dequeueSync r (record_failure res q st)) = syncQueue (dequeueSync r st)"
  by (rule dequeueSync_same_ids) (simp_all add: record_failure_fields)

lemma settle_queue_cases:
  "syncQueue (settle res q st) = syncQueue st \<or>
   syncQueue (settle res q st) =
     remove_first (\<lambda>x. item_id (store st x) = item_id (store st q)) (syncQueue st)"
  unfolding settle_unfold
  using dequeueSync_queue_cases[of q st]
  by (auto simp: dequeueSync_record_failure record_failure_fields)

lemma settle_queue_subset: "set (syncQueue (settle res q st)) \<subseteq> set (syncQueue st)"
  using settle_queue_cases[of res q st] set_remove_first[of _ "syncQueue st"] by fastforce

lemma settle_ids:
  "item_id (store (settle res q st) r) = item_id (store st r)"
  "maxAttempts (store (settle res q st) r) = maxAttempts (store st r)"
  "nextRef (settle res q st) = nextRef st"
  unfolding settle_unfold
  by (simp_all add: dequeueSync_fields record_failure_fields)

lemma settle_store_other:
  "r \<noteq> q \<Longrightarrow> store (settle res q st) r = store st r"
  unfolding settle_unfold
  by (simp add: dequeueSync_fields record_failure_fields)

lemma settle_wf:
  assumes "queue_wf st"
  shows "queue_wf (settle res q st)"
proof -
  from assms have d: "distinct (map (\<lambda>r. item_id (store st r)) (syncQueue st))"
    and a: "\<forall>r\<in>set (syncQueue st). r < nextRef st \<and> item_id (store st r) \<noteq> []"
    by (simp_all add: queue_wf_def list_all_iff)
  have "distinct (map (\<lambda>r. item_id (store st r)) (syncQueue (settle res q st)))"
    using settle_queue_cases[of res q st] d distinct_map_remove_first
    by (metis (no_types, lifting))
  then have 1: "distinct (map (\<lambda>r. item_id (store (settle res q st) r)) (syncQueue (settle res q st)))"
    by (simp add: settle_ids)
  have 2: "\<forall>r\<in>set (syncQueue (settle res q st)).
      r < nextRef (settle res q st) \<and> item_id (store (settle res q st) r) \<noteq> []"
    using a settle_queue_subset[of res q st] by (auto simp: settle_ids)
  from 1 2 show ?thesis by (simp add: queue_wf_def list_all_iff)
qed

lemma dequeueSync_removes:
  assumes "queue_wf st" "r \<in> set (syncQueue st)"
  shows "r \<notin> set (syncQueue (dequeueSync r st))"
proof -
  from assms have "item_id (store st r) \<noteq> []" by (auto simp: queue_wf_def list_all_iff)
  moreover from assms have "distinct (map (\<lambda>r. item_id (store st r)) (syncQueue st))"
    by (simp add: queue_wf_def)
  ultimately show ?thesis
    using remove_first_removes[of "\<lambda>r. item_id (store st r)" "syncQueue st" r]
    by (simp add: dequeueSync_def)
qed

lemma settle_removes:
  assumes "queue_wf st"
    and "succeeded res \<or> attempts (store st r) + 1 \<ge> maxAttempts (store st r)"
  shows "r \<notin> set (syncQueue (settle res r st))"
proof (cases "r \<in> set (syncQueue st)")
  case False
  then show ?thesis using settle_queue_subset by blast
next
  case True
  from assms(2) have "syncQueue (settle res r st) = syncQueue (dequeueSync r st)"
    unfolding settle_unfold by (auto simp: dequeueSync_record_failure)
  with dequeueSync_removes[OF assms(1) True] show ?thesis by simp
qed

lemma settle_keeps:
  assumes "\<not> succeeded res" "attempts (store st r) + 1 < maxAttempts (store st r)"
  shows "syncQueue (settle res r st) = syncQueue st"
    and "attempts (store (settle res r st) r) = attempts (store st r) + 1"
  using assms by (simp_all add: settle_unfold record_failure_fields)

lemma remove_first_keeps: "x \<in> set xs \<Longrightarrow> \<not> P x \<Longrightarrow> x \<in> set (remove_first P xs)"
  by (induction xs) auto

lemma settle_type: "item_type (store (settle res q st) x) = item_type (store st x)"
  unfolding settle_unfold by (simp add: dequeueSync_fields record_failure_def)

lemma settle_flags:
  "onlineStatus (settle res q st) = onlineStatus st"
  "syncInProgress (settle res q st) = syncInProgress st"
  unfolding settle_unfold by (simp_all add: dequeueSync_fields record_failure_def)

text \<open>Settling a list of items one after the other, each with its own result.\<close>

lemma settle_all_invariants:
  "item_id (store (foldl (\<lambda>s r. settle (res r) r s) st rs) x) = item_id (store st x)"
  "item_type (store (foldl (\<lambda>s r. settle (res r) r s) st rs) x) = item_type (store st x)"
  "maxAttempts (store (foldl (\<lambda>s r. settle (res r) r s) st rs) x) = maxAttempts (store st x)"
  "nextRef (foldl (\<lambda>s r. settle (res r) r s) st rs) = nextRef st"
  "onlineStatus (foldl (\<lambda>s r. settle (res r) r s) st rs) = onlineStatus st"
  "syncInProgress (foldl (\<lambda>s r. settle (res r) r s) st rs) = syncInProgress st"
  by (induction rs arbitrary: st; simp add: settle_ids settle_type settle_flags)+

lemma settle_all_subset:
  "set (syncQueue (foldl (\<lambda>s r. settle (res r) r s) st rs)) \<subseteq> set (syncQueue st)"
proof (induction rs arbitrary: st)
  case Nil
  then show ?case by simp
next
  case (Cons q rs)
  from Cons[of "settle (res q) q st"] settle_queue_subset[of "res q" q st]
  show ?case by auto
qed

lemma settle_all_wf:
  "queue_wf st \<Longrightarrow> queue_wf (foldl (\<lambda>s r. settle (res r) r s) st rs)"
  by (induction rs arbitrary: st) (simp_all add: settle_wf)

lemma settle_all_store_other:
  "x \<notin> set rs \<Longrightarrow> store (foldl (\<lambda>s r. settle (res r) r s) st rs) x = store st x"
  by (induction rs arbitrary: st) (simp_all add: settle_store_other)

lemma settle_all_removes:
  assumes "queue_wf st" "distinct rs" "r \<in> set rs"
    and "succeeded (res r) \<or> attempts (store st r) + 1 \<ge> maxAttempts (store st r)"
  shows "r \<notin> set (syncQueue (foldl (\<lambda>s r. settle (res r) r s) st rs))"
  using assms
proof (induction rs arbitrary: st)
  case Nil
  then show ?case by simp
next
  case (Cons q rs)
  show ?case
  proof (cases "q = r")
    case True
    from settle_removes[OF Cons.prems(1), of "res r" r] Cons.prems(4)
    have "r \<notin> set (syncQueue (settle (res r) r st))" by blast
    with settle_all_subset[of res "settle (res r) r st" rs] True show ?thesis by auto
  next
    case False
    with Cons.prems have r: "r \<in> set rs" "distinct rs" by auto
    have s: "store (settle (res q) q st) r = store st r"
      using False by (simp add: settle_store_other)
    from Cons.IH[OF settle_wf[OF Cons.prems(1)] r(2) r(1)] Cons.prems(4) s
    show ?thesis by simp
  qed
qed

lemma settle_keeps_other:
  assumes "item_id (store st q) \<noteq> item_id (store st r)" "r \<in> set (syncQueue st)"
  shows "r \<in> set (syncQueue (settle res q st))"
proof -
  from settle_queue_cases[of res q st] show ?thesis
  proof
    assume "syncQueue (settle res q st) = syncQueue st"
    with assms(2) show ?thesis by simp
  next
    assume e: "syncQueue (settle res q st) =
      remove_first (\<lambda>x. item_id (store st x) = item_id (store st q)) (syncQueue st)"
    show ?thesis unfolding e by (rule remove_first_keeps[OF assms(2)]) (use assms(1) in simp)
  qed
qed

lemma settle_all_keeps_other:
  assumes "\<forall>q\<in>set rs. item_id (store st q) \<noteq> item_id (store st r)" "r \<in> set (syncQueue st)"
  shows "r \<in> set (syncQueue (foldl (\<lambda>s r. settle (res r) r s) st rs))
       \<and> store (foldl (\<lambda>s r. settle (res r) r s) st rs) r = store st r"
  using assms
proof (induction rs arbitrary: st)
  case Nil
  then show ?case by simp
next
  case (Cons q rs)
  from Cons.prems have ne: "item_id (store st q) \<noteq> item_id (store st r)" by simp
  then have qr: "r \<noteq> q" by auto
  have 1: "r \<in> set (syncQueue (settle (res q) q st))"
    by (rule settle_keeps_other[OF ne Cons.prems(2)])
  have 2: "\<forall>p\<in>set rs. item_id (store (settle (res q) q st) p) \<noteq> item_id (store (settle (res q) q st) r)"
    using Cons.prems(1) by (simp add: settle_ids)
  from Cons.IH[OF 2 1] settle_store_other[OF qr, of "res q" st] show ?case by simp
qed

lemma settle_all_keeps:
  assumes "distinct (map (\<lambda>x. item_id (store st x)) rs)" "r \<in> set rs" "r \<in> set (syncQueue st)"
    and "\<not> succeeded (res r)" "attempts (store st r) + 1 < maxAttempts (store st r)"
  shows "r \<in> set (syncQueue (foldl (\<lambda>s r. settle (res r) r s) st rs))
       \<and> attempts (store (foldl (\<lambda>s r. settle (res r) r s) st rs) r) = attempts (store st r) + 1"
  using assms
proof (induction rs arbitrary: st)
  case Nil
  then show ?case by simp
next
  case (Cons q rs)
  show ?case
  proof (cases "q = r")
    case True
    from Cons.prems(1) True
    have o: "\<forall>p\<in>set rs. item_id (store (settle (res r) r st) p) \<noteq> item_id (store (settle (res r) r st) r)"
      by (auto simp: settle_ids image_iff)
    from settle_keeps[OF Cons.prems(4,5)] Cons.prems(3)
    have k: "r \<in> set (syncQueue (settle (res r) r st))"
      "attempts (store (settle (res r) r st) r) = attempts (store st r) + 1" by simp_all
    from settle_all_keeps_other[OF o k(1), of res] k(2) True show ?thesis by simp
  next
    case False
    with Cons.prems have ne: "item_id (store st q) \<noteq> item_id (store st r)" by (auto simp: image_iff)
    have 1: "r \<in> set (syncQueue (settle (res q) q st))"
      by (rule settle_keeps_other[OF ne Cons.prems(3)])
    have 2: "distinct (map (\<lambda>x. item_id (store (settle (res q) q st) x)) rs)"
      using Cons.prems(1) by (simp add: settle_ids)
    have 3: "r \<in> set rs" using Cons.prems(2) False by simp
    have 4: "store (settle (res q) q st) r = store st r"
      using False by (simp add: settle_store_other)
    from Cons.IH[OF 2 3 1 Cons.prems(4)] Cons.prems(5) 4 show ?thesis by simp
  qed
qed

text \<open>The batches, taken together, settle the selected items in order.\<close>

lemma processSyncItem_cong:
  "(\<And>x. item_type (store st' x) = item_type (store st x))
   \<Longrightarrow> processSyncItem remote st' = processSyncItem remote st"
  by (rule ext) (simp add: processSyncItem_def)

lemma processSyncBatch_fold:
  "processSyncBatch remote batch st =
     foldl (\<lambda>s r. settle (processSyncItem remote st r) r s) st batch"
proof -
  have "foldl (\<lambda>s (result, item). settle result item s) s (zip (map g xs) xs)
      = foldl (\<lambda>s r. settle (g r) r s) s xs" for g xs and s :: "'a sync_state"
    by (induction xs arbitrary: s) simp_all
  then show ?thesis by (simp add: processSyncBatch_def Let_def)
qed

lemma process_from_fold:
  "0 < bs \<Longrightarrow> process_from remote bs items i st =
     foldl (\<lambda>s r. settle (processSyncItem remote st r) r s) st (drop i items)"
proof (induction remote bs items i st rule: process_from.induct)
  case (1 remote bs items i st)
  show ?case
  proof (cases "i < length items")
    case False
    then show ?thesis by (subst process_from.simps) simp
  next
    case True
    let ?st' = "processSyncBatch remote (take bs (drop i items)) st"
    have c: "processSyncItem remote ?st' = processSyncItem remote st"
      by (rule processSyncItem_cong) (simp add: processSyncBatch_fold settle_all_invariants)
    have sp: "drop i items = take bs (drop i items) @ drop (i + bs) items"
      by (metis add.commute append_take_drop_id drop_drop)
    from True "1.prems" have "process_from remote bs items i st
        = process_from remote bs items (i + bs) ?st'"
      by (subst process_from.simps) simp
    also from "1.IH" True "1.prems"
    have "\<dots> = foldl (\<lambda>s r. settle (processSyncItem remote ?st' r) r s) ?st' (drop (i + bs) items)"
      by simp
    also have "\<dots> = foldl (\<lambda>s r. settle (processSyncItem remote st r) r s) ?st' (drop (i + bs) items)"
      by (simp add: c)
    also have "\<dots> = foldl (\<lambda>s r. settle (processSyncItem remote st r) r s) st
        (take bs (drop i items) @ drop (i + bs) items)"
      by (simp add: processSyncBatch_fold)
    finally show ?thesis using sp by simp
  qed
qed

lemma settle_flag_commute:
  "settle res q (s\<lparr>syncInProgress := b\<rparr>) = (settle res q s)\<lparr>syncInProgress := b\<rparr>"
  by (simp add: settle_def dequeueSync_def record_failure_def Let_def)

lemma processSyncQueue_run:
  assumes "\<not> syncInProgress st" "onlineStatus st" "r \<in> set (itemsToSync now st)"
  shows "syncQueue (processSyncQueue remote now st) =
     syncQueue (foldl (\<lambda>s r. settle (processSyncItem remote st r) r s) st (itemsToSync now st))"
    and "store (processSyncQueue remote now st) =
     store (foldl (\<lambda>s r. settle (processSyncItem remote st r) r s) st (itemsToSync now st))"
proof -
  let ?st = "st\<lparr>syncInProgress := True\<rparr>"
  from assms(3) have ne1: "itemsToSync now st \<noteq> []" by auto
  from assms(3) have ne2: "syncQueue st \<noteq> []" by (auto simp: itemsToSync_def)
  note ne = ne1 ne2
  have i: "itemsToSync now ?st = itemsToSync now st" by (simp add: itemsToSync_def)
  have p: "processSyncItem remote ?st = processSyncItem remote st"
    by (rule processSyncItem_cong) simp
  have f: "foldl (\<lambda>s r. settle (processSyncItem remote st r) r s) (s\<lparr>syncInProgress := b\<rparr>) rs
      = (foldl (\<lambda>s r. settle (processSyncItem remote st r) r s) s rs)\<lparr>syncInProgress := b\<rparr>"
    for s :: "'a sync_state" and b rs
    by (induction rs arbitrary: s) (simp_all add: settle_flag_commute)
  have "processSyncQueue remote now st =
      (process_from remote 5 (itemsToSync now st) 0 ?st)\<lparr>syncInProgress := False\<rparr>"
    using assms(1,2) ne by (simp add: processSyncQueue_def Let_def i)
  then have e: "processSyncQueue remote now st =
      (foldl (\<lambda>s r. settle (processSyncItem remote st r) r s) ?st (itemsToSync now st))\<lparr>syncInProgress := False\<rparr>"
    by (simp add: process_from_fold p)
  show "syncQueue (processSyncQueue remote now st) =
     syncQueue (foldl (\<lambda>s r. settle (processSyncItem remote st r) r s) st (itemsToSync now st))"
    unfolding e f by simp
  show "store (processSyncQueue remote now st) =
     store (foldl (\<lambda>s r. settle (processSyncItem remote st r) r s) st (itemsToSync now st))"
    unfolding e f by simp
qed

lemma itemsToSync_subset: "set (itemsToSync now st) \<subseteq> set (syncQueue st)"
  by (auto simp: itemsToSync_def)

lemma itemsToSync_distinct_ids:
  "queue_wf st \<Longrightarrow> distinct (map (\<lambda>x. item_id (store st x)) (itemsToSync now st))"
  by (simp add: queue_wf_def itemsToSync_def distinct_map_filter)

lemma processSyncQueue_subset:
  "set (syncQueue (processSyncQueue remote now st)) \<subseteq> set (syncQueue st)"
  "nextRef (processSyncQueue remote now st) = nextRef st"
proof -
  let ?st = "st\<lparr>syncInProgress := True\<rparr>"
  have 1: "set (syncQueue (process_from remote 5 (itemsToSync now ?st) 0 ?st)) \<subseteq> set (syncQueue st)"
    using settle_all_subset[of "processSyncItem remote ?st" ?st "itemsToSync now ?st"]
    by (simp add: process_from_fold)
  have 2: "nextRef (process_from remote 5 (itemsToSync now ?st) 0 ?st) = nextRef st"
    by (simp add: process_from_fold settle_all_invariants)
  show "set (syncQueue (processSyncQueue remote now st)) \<subseteq> set (syncQueue st)"
    using 1 by (simp add: processSyncQueue_def Let_def)
  show "nextRef (processSyncQueue remote now st) = nextRef st"
    using 2 by (simp add: processSyncQueue_def Let_def)
qed

lemma enqueueSync_subset:
  "set (syncQueue (enqueueSync sanitizeInput now new_id item st)) \<subseteq> insert (nextRef st) (set (syncQueue st))"
  "nextRef st \<le> nextRef (enqueueSync sanitizeInput now new_id item st)"
  by (auto simp: enqueueSync_def Let_def split: option.splits dest: in_set_takeD)

lemma run_sync_op_absent:
  assumes "r < nextRef st" "r \<notin> set (syncQueue st)"
  shows "r < nextRef (run_sync_op sanitizeInput op st) \<and> r \<notin> set (syncQueue (run_sync_op sanitizeInput op st))"
proof (cases op)
  case (Enqueue now new_id item)
  with assms enqueueSync_subset[where sanitizeInput = sanitizeInput and now = now
      and new_id = new_id and item = item and st = st]
  show ?thesis by auto
next
  case (Dequeue q)
  with assms dequeueSync_queue_subset[of q st] show ?thesis by (auto simp: dequeueSync_fields)
next
  case (Process remote now)
  with assms processSyncQueue_subset[of remote now st] show ?thesis by auto
next
  case Online
  with assms show ?thesis by simp
next
  case Offline
  with assms show ?thesis by simp
next
  case (QuotaExceeded now)
  with assms show ?thesis by (simp add: handleStorageQuotaExceeded_def Let_def)
next
  case ClearAllData
  with assms show ?thesis by (simp add: clearAllData_def)
qed

lemma run_sync_ops_absent:
  assumes "r < nextRef st" "r \<notin> set (syncQueue st)"
  shows "r \<notin> set (syncQueue (foldl (\<lambda>s op. run_sync_op sanitizeInput op s) st ops))"
  using assms
proof (induction ops arbitrary: st)
  case Nil
  then show ?case by simp
next
  case (Cons op ops)
  from run_sync_op_absent[OF Cons.prems, where sanitizeInput = sanitizeInput and op = op] Cons.IH
  show ?case by simp
qed

subsection \<open>Eviction and removal\<close>

text \<open>
  Claim C7: in a well-formed queue, while online and with no run in progress, take an
  item that \<open>processSyncQueue\<close> selects. If its processing succeeds, the item is
  gone from the queue when the run ends. If it fails and this was its
  \<open>maxAttempts\<close>-th attempt, the item is gone from the queue as well. If it fails
  with attempts to spare, it stays queued with one more attempt counted. An item that
  has left the queue is never selected again, whatever operations follow.
\<close>

theorem sync_item_eviction:
  assumes "queue_wf st" "\<not> syncInProgress st" "onlineStatus st" "r \<in> set (itemsToSync now st)"
  shows "(succeeded (processSyncItem remote st r) \<longrightarrow>
           r \<notin> set (syncQueue (processSyncQueue remote now st)))
     \<and> (\<not> succeeded (processSyncItem remote st r)
          \<and> attempts (store st r) + 1 = maxAttempts (store st r) \<longrightarrow>
           r \<notin> set (syncQueue (processSyncQueue remote now st)))
     \<and> (\<not> succeeded (processSyncItem remote st r)
          \<and> attempts (store st r) + 1 < maxAttempts (store st r) \<longrightarrow>
           r \<in> set (syncQueue (processSyncQueue remote now st))
           \<and> attempts (store (processSyncQueue remote now st) r) = attempts (store st r) + 1)
     \<and> (r \<notin> set (syncQueue (processSyncQueue remote now st)) \<longrightarrow>
          (\<forall>ops now'. r \<notin> set (itemsToSync now'
             (foldl (\<lambda>s op. run_sync_op sanitizeInput op s) (processSyncQueue remote now st) ops))))"
proof (intro conjI impI allI)
  note run = processSyncQueue_run[OF assms(2,3,4), of remote]
  have d: "distinct (itemsToSync now st)"
    using itemsToSync_distinct_ids[OF assms(1), of now] by (simp add: distinct_map)
  have q: "r \<in> set (syncQueue st)" using assms(4) itemsToSync_subset by blast
  {
    assume "succeeded (processSyncItem remote st r)"
    with settle_all_removes[OF assms(1) d assms(4), of "processSyncItem remote st"]
    show "r \<notin> set (syncQueue (processSyncQueue remote now st))" unfolding run by blast
  }
  {
    assume "\<not> succeeded (processSyncItem remote st r)
          \<and> attempts (store st r) + 1 = maxAttempts (store st r)"
    with settle_all_removes[OF assms(1) d assms(4), of "processSyncItem remote st"]
    show "r \<notin> set (syncQueue (processSyncQueue remote now st))" unfolding run by simp
  }
  {
    assume a: "\<not> succeeded (processSyncItem remote st r)
          \<and> attempts (store st r) + 1 < maxAttempts (store st r)"
    note k = settle_all_keeps[OF itemsToSync_distinct_ids[OF assms(1), of now] assms(4) q,
        of "processSyncItem remote st"]
    from k a show "r \<in> set (syncQueue (processSyncQueue remote now st))" unfolding run by blast
    from k a show "attempts (store (processSyncQueue remote now st) r) = attempts (store st r) + 1"
      unfolding run by blast
  }
  {
    fix ops :: "'a sync_op list" and now'
    assume n: "r \<notin> set (syncQueue (processSyncQueue remote now st))"
    from assms(1) q have "r < nextRef st" by (auto simp: queue_wf_def list_all_iff)
    then have "r < nextRef (processSyncQueue remote now st)"
      by (simp add: processSyncQueue_subset)
    from run_sync_ops_absent[OF this n, where sanitizeInput = sanitizeInput and ops = ops]
    show "r \<notin> set (itemsToSync now'
             (foldl (\<lambda>s op. run_sync_op sanitizeInput op s) (processSyncQueue remote now st) ops))"
      using itemsToSync_subset by blast
  }
qed

theorem sync_item_eviction_witness:
  "0 \<notin> set (syncQueue (processSyncQueue (\<lambda>_. Fulfilled True) 2000
      (enqueueSync (\<lambda>s. s) 1000 ''sync_1000_a''
         (Some \<lparr>req_type = Some ''leaderboard_update'', req_data = (), req_maxAttempts = Some 2,
                req_priority = None, req_retries = None\<rparr>)
         (initialSyncState () True))))
   \<and> 0 \<in> set (syncQueue (processSyncQueue (\<lambda>_. Rejected (Some ''Network timeout'')) 2000
      (enqueueSync (\<lambda>s. s) 1000 ''sync_1000_a''
         (Some \<lparr>req_type = Some ''leaderboard_update'', req_data = (), req_maxAttempts = Some 2,
                req_priority = None, req_retries = None\<rparr>)
         (initialSyncState () True))))
   \<and> 0 \<notin> set (syncQueue (processSyncQueue (\<lambda>_. Rejected (Some ''Network timeout'')) 40000
      (processSyncQueue (\<lambda>_. Rejected (Some ''Network timeout'')) 2000
        (enqueueSync (\<lambda>s. s) 1000 ''sync_1000_a''
           (Some \<lparr>req_type = Some ''leaderboard_update'', req_data = (), req_maxAttempts = Some 2,
                  req_priority = None, req_retries = None\<rparr>)
           (initialSyncState () True)))))
   \<and> (\<forall>ops now'. 0 \<notin> set (itemsToSync now'
        (foldl (\<lambda>s op. run_sync_op (\<lambda>s. s) op s)
          (processSyncQueue (\<lambda>_. Rejected (Some ''Network timeout'')) 40000
            (processSyncQueue (\<lambda>_. Rejected (Some ''Network timeout'')) 2000
              (enqueueSync (\<lambda>s. s) 1000 ''sync_1000_a''
                 (Some \<lparr>req_type = Some ''leaderboard_update'', req_data = (), req_maxAttempts = Some 2,
                        req_priority = None, req_retries = None\<rparr>)
                 (initialSyncState () True)))) ops)))"
proof -
  let ?ok = "(\<lambda>_. Fulfilled True) :: nat \<Rightarrow> settled"
  let ?fail = "(\<lambda>_. Rejected (Some ''Network timeout'')) :: nat \<Rightarrow> settled"
  let ?st1 = "enqueueSync (\<lambda>s. s) 1000 ''sync_1000_a''
         (Some \<lparr>req_type = Some ''leaderboard_update'', req_data = (), req_maxAttempts = Some 2,
                req_priority = None, req_retries = None\<rparr>)
         (initialSyncState () True)"
  let ?st2 = "processSyncQueue ?fail 2000 ?st1"
  have wf1: "queue_wf ?st1" by code_simp
  have p1: "\<not> syncInProgress ?st1" by code_simp
  have o1: "onlineStatus ?st1" by code_simp
  have s1: "0 \<in> set (itemsToSync 2000 ?st1)" by code_simp
  have ok1: "succeeded (processSyncItem ?ok ?st1 0)" by code_simp
  have f1: "\<not> succeeded (processSyncItem ?fail ?st1 0)
      \<and> attempts (store ?st1 0) + 1 < maxAttempts (store ?st1 0)" by code_simp
  have wf2: "queue_wf ?st2" by code_simp
  have p2: "\<not> syncInProgress ?st2" by code_simp
  have o2: "onlineStatus ?st2" by code_simp
  have s2: "0 \<in> set (itemsToSync 40000 ?st2)" by code_simp
  have f2: "\<not> succeeded (processSyncItem ?fail ?st2 0)
      \<and> attempts (store ?st2 0) + 1 = maxAttempts (store ?st2 0)" by code_simp
  from sync_item_eviction[OF wf1 p1 o1 s1, of ?ok] ok1
  have a: "0 \<notin> set (syncQueue (processSyncQueue ?ok 2000 ?st1))" by blast
  from sync_item_eviction[OF wf1 p1 o1 s1, of ?fail] f1
  have b: "0 \<in> set (syncQueue ?st2)" by blast
  from sync_item_eviction[OF wf2 p2 o2 s2, of ?fail "\<lambda>s. s"] f2
  have c: "0 \<notin> set (syncQueue (processSyncQueue ?fail 40000 ?st2))"
    and d: "0 \<notin> set (syncQueue (processSyncQueue ?fail 40000 ?st2)) \<longrightarrow>
      (\<forall>ops now'. 0 \<notin> set (itemsToSync now'
        (foldl (\<lambda>s op. run_sync_op (\<lambda>s. s) op s) (processSyncQueue ?fail 40000 ?st2) ops)))"
    by blast+
  from a b c d show ?thesis by blast
qed

subsection \<open>Enqueueing\<close>

text \<open>The item that \<open>enqueueSync\<close> builds, and the three things it does to the state.\<close>

lemma enqueueSync_new_item:
  "store (enqueueSync sanitizeInput now new_id (Some item) st) (nextRef st) =
     \<lparr>item_id = new_id,
      item_type = sanitizeInput (str_or (req_type item) ''unknown''),
      item_data = req_data item,
      timestamp = now,
      attempts = 0,
      maxAttempts = num_or (req_maxAttempts item) MAX_RETRY_ATTEMPTS,
      priority = str_or (req_priority item) ''normal'',
      retries = num_or (req_retries item) 0,
      lastError = None\<rparr>"
  "nextRef (enqueueSync sanitizeInput now new_id (Some item) st) = nextRef st + 1"
  "x \<noteq> nextRef st \<Longrightarrow> store (enqueueSync sanitizeInput now new_id (Some item) st) x = store st x"
  by (simp_all add: enqueueSync_def Let_def)

lemma enqueueSync_queue:
  "syncQueue (enqueueSync sanitizeInput now new_id (Some item) st) =
     (let q = sort_key (\<lambda>x. queue_key (store (enqueueSync sanitizeInput now new_id (Some item) st) x))
                (syncQueue st @ [nextRef st])
      in if length q > 1000 then take 1000 q else q)"
  by (simp add: enqueueSync_def Let_def)

lemma enqueueSync_room:
  assumes "length (syncQueue st) < 1000"
  shows "set (syncQueue (enqueueSync sanitizeInput now new_id (Some item) st))
           = insert (nextRef st) (set (syncQueue st))"
    and "length (syncQueue (enqueueSync sanitizeInput now new_id (Some item) st))
           = length (syncQueue st) + 1"
  using assms by (simp_all add: enqueueSync_queue Let_def)

text \<open>After an enqueue the queue is within the cap.\<close>

lemma enqueueSync_capped:
  "length (syncQueue st) \<le> 1000 \<Longrightarrow>
     length (syncQueue (enqueueSync sanitizeInput now new_id (Some item) st)) \<le> 1000"
  by (simp add: enqueueSync_queue Let_def)

text \<open>
  After an enqueue the queue is ordered by priority rank and then by age. The order is
  the code's when every priority involved is ranked.
\<close>

lemma enqueueSync_sorted:
  assumes "\<forall>x\<in>set (syncQueue st). ranked_priority (priority (store st x))"
    and "ranked_priority (str_or (req_priority item) ''normal'')"
  shows "sorted (map (\<lambda>x. queue_key (store (enqueueSync sanitizeInput now new_id (Some item) st) x))
     (syncQueue (enqueueSync sanitizeInput now new_id (Some item) st)))"
proof -
  let ?st' = "enqueueSync sanitizeInput now new_id (Some item) st"
  let ?f = "\<lambda>x. queue_key (store ?st' x)"
  have "sorted (take 1000 (map ?f (sort_key ?f (syncQueue st @ [nextRef st]))))"
    by (rule sorted_wrt_take) simp
  then show "sorted (map ?f (syncQueue ?st'))"
    by (simp add: enqueueSync_queue Let_def take_map)
qed

text \<open>
  On a full queue whose items all sort before the new one, the new item lands in
  position 1001 and the cut removes it.
\<close>

lemma enqueueSync_full_drops_new:
  assumes "length (syncQueue st) = 1000"
    and "sorted (map (\<lambda>x. queue_key (store st x)) (syncQueue st))"
    and "\<forall>x\<in>set (syncQueue st). x \<noteq> nextRef st \<and>
           queue_key (store st x) \<le> (- priorityOrder (str_or (req_priority item) ''normal''), now)"
  shows "syncQueue (enqueueSync sanitizeInput now new_id (Some item) st) = syncQueue st"
proof -
  let ?st' = "enqueueSync sanitizeInput now new_id (Some item) st"
  let ?f = "\<lambda>x. queue_key (store ?st' x)"
  have new: "?f (nextRef st) = (- priorityOrder (str_or (req_priority item) ''normal''), now)"
    by (simp add: enqueueSync_new_item queue_key_def)
  have old: "map ?f (syncQueue st) = map (\<lambda>x. queue_key (store st x)) (syncQueue st)"
    using assms(3) by (intro map_cong) (simp_all add: enqueueSync_new_item)
  have le: "\<forall>k\<in>set (map ?f (syncQueue st)). k \<le> ?f (nextRef st)"
    unfolding old new using assms(3) by auto
  have "sorted (map ?f (syncQueue st @ [nextRef st]))"
    using assms(2) le by (simp add: sorted_append old)
  then have "sort_key ?f (syncQueue st @ [nextRef st]) = syncQueue st @ [nextRef st]"
    by (rule sort_key_id_if_sorted)
  then show ?thesis using assms(1) by (simp add: enqueueSync_queue Let_def)
qed

lemma sorted_map_upt:
  "(\<And>i j. i \<le> j \<Longrightarrow> f i \<le> f j) \<Longrightarrow> sorted (map f [m..<n])"
  by (simp add: sorted_map sorted_wrt_iff_nth_less)

subsection \<open>The size cap\<close>

text \<open>
  Claim C8, at a full queue: 1000 items of priority normal, the oldest first, with
  timestamps 0 to 999 under the references 0 to 999. Enqueueing one more normal item
  at time 5000 leaves the queue exactly as it was: the cap is kept and the order too,
  but the item that is dropped is the new one, under reference 1000, while the oldest
  item stays at the front.
\<close>

theorem full_queue_drops_newest:
  "syncQueue (enqueueSync (\<lambda>s. s) 5000 ''sync_5000_new''
      (Some \<lparr>req_type = Some ''user_progress'', req_data = (), req_maxAttempts = None,
             req_priority = Some ''normal'', req_retries = None\<rparr>)
      \<lparr>store = (\<lambda>r. \<lparr>item_id = replicate (Suc r) CHR ''i'', item_type = ''user_progress'',
                      item_data = (), timestamp = int r, attempts = 0, maxAttempts = 5,
                      priority = ''normal'', retries = 0, lastError = None\<rparr>),
        syncQueue = [0..<1000], nextRef = 1000, onlineStatus = False, syncInProgress = False\<rparr>)
   = [0..<1000]"
  by (rule enqueueSync_full_drops_new[THEN trans])
     (simp_all add: queue_key_def priorityOrder_def str_or_def sorted_map_upt)

section \<open>Properties of the leaderboard merge\<close>



























subsection \<open>Idempotence and order independence\<close>



text \<open>
  Why each leaderboard is taken with one entry per id: the primary list is loaded into
  the map with the last entry of an id winning, the secondary list with the best one
  winning. On a list that repeats an id the two orders of merging with the empty list
  differ, and merging the list with itself loses an entry.
\<close>

lemma merge_repeated_id:
  "mergeLeaderboards
     [\<lparr>entry_id = ''a'', entry_name = ''Ann'', entry_score = 5, entry_timestamp = 1, session = ''s1''\<rparr>,
      \<lparr>entry_id = ''a'', entry_name = ''Ann'', entry_score = 3, entry_timestamp = 2, session = ''s2''\<rparr>] []
     = [\<lparr>entry_id = ''a'', entry_name = ''Ann'', entry_score = 3, entry_timestamp = 2, session = ''s2''\<rparr>]
   \<and> mergeLeaderboards []
     [\<lparr>entry_id = ''a'', entry_name = ''Ann'', entry_score = 5, entry_timestamp = 1, session = ''s1''\<rparr>,
      \<lparr>entry_id = ''a'', entry_name = ''Ann'', entry_score = 3, entry_timestamp = 2, session = ''s2''\<rparr>]
     = [\<lparr>entry_id = ''a'', entry_name = ''Ann'', entry_score = 5, entry_timestamp = 1, session = ''s1''\<rparr>]
   \<and> mergeLeaderboards
     [\<lparr>entry_id = ''a'', entry_name = ''Ann'', entry_score = 5, entry_timestamp = 1, session = ''s1''\<rparr>,
      \<lparr>entry_id = ''a'', entry_name = ''Ann'', entry_score = 3, entry_timestamp = 2, session = ''s2''\<rparr>]
     [\<lparr>entry_id = ''a'', entry_name = ''Ann'', entry_score = 5, entry_timestamp = 1, session = ''s1''\<rparr>,
      \<lparr>entry_id = ''a'', entry_name = ''Ann'', entry_score = 3, entry_timestamp = 2, session = ''s2''\<rparr>]
     = [\<lparr>entry_id = ''a'', entry_name = ''Ann'', entry_score = 5, entry_timestamp = 1, session = ''s1''\<rparr>]"
  by code_simp

section \<open>Properties of the player-local update\<close>

lemma length_filter_take: "length (filter P (take n xs)) \<le> length (filter P xs)"
proof -
  have "length (filter P xs) = length (filter P (take n xs)) + length (filter P (drop n xs))"
    by (metis append_take_drop_id filter_append length_append)
  then show ?thesis by simp
qed

text \<open>The board after an update, for any entry put in.\<close>

lemma board_after_insert:
  fixes e :: entry and lb :: "entry list"
  defines "lb' \<equiv> take MAX_LEADERBOARD_SIZE
      (sort_by_score (filter (\<lambda>x. entry_id x \<noteq> entry_id e) lb @ [e]))"
  shows "\<forall>x\<in>set lb'. entry_id x = entry_id e \<longrightarrow> x = e"
    and "length (filter (\<lambda>x. entry_id x = entry_id e) lb') \<le> 1"
    and "set lb' \<subseteq> insert e (set lb)"
    and "length lb < 100 \<Longrightarrow> e \<in> set lb'"
    and "sorted (map (\<lambda>x. - entry_score x) lb')"
    and "length lb' \<le> 100"
proof -
  let ?xs = "filter (\<lambda>x. entry_id x \<noteq> entry_id e) lb @ [e]"
  have s: "set lb' \<subseteq> set ?xs"
    unfolding lb'_def sort_by_score_def using set_take_subset[of _ "sort_key _ ?xs"] by simp
  from s show "\<forall>x\<in>set lb'. entry_id x = entry_id e \<longrightarrow> x = e" by auto
  from s show "set lb' \<subseteq> insert e (set lb)" by auto
  have "filter (\<lambda>x. entry_id x = entry_id e) (sort_by_score ?xs)
      = sort_by_score (filter (\<lambda>x. entry_id x = entry_id e) ?xs)"
    unfolding sort_by_score_def by (rule filter_sort)
  also have "filter (\<lambda>x. entry_id x = entry_id e) ?xs = [e]" by (simp add: filter_empty_conv)
  finally have "length (filter (\<lambda>x. entry_id x = entry_id e) (sort_by_score ?xs)) = 1"
    by (simp add: sort_by_score_def)
  with length_filter_take[of "\<lambda>x. entry_id x = entry_id e" MAX_LEADERBOARD_SIZE "sort_by_score ?xs"]
  show "length (filter (\<lambda>x. entry_id x = entry_id e) lb') \<le> 1" by (simp add: lb'_def)
  show "e \<in> set lb'" if "length lb < 100"
  proof -
    have "length (filter (\<lambda>x. entry_id x \<noteq> entry_id e) lb) \<le> length lb"
      by (rule length_filter_le)
    with that have "length (filter (\<lambda>x. entry_id x \<noteq> entry_id e) lb) \<le> 99" by linarith
    then have "length (sort_by_score ?xs) \<le> MAX_LEADERBOARD_SIZE"
      by (simp add: sort_by_score_def MAX_LEADERBOARD_SIZE_def)
    then have "lb' = sort_by_score ?xs" by (simp add: lb'_def)
    then show ?thesis by (simp add: sort_by_score_def)
  qed
  have "sorted (take MAX_LEADERBOARD_SIZE (map (\<lambda>x. - entry_score x)
      (sort_key (\<lambda>x. - entry_score x) ?xs)))"
    by (rule sorted_wrt_take) simp
  then show "sorted (map (\<lambda>x. - entry_score x) lb')"
    by (simp add: lb'_def sort_by_score_def take_map)
  show "length lb' \<le> 100" by (simp add: lb'_def MAX_LEADERBOARD_SIZE_def)
qed

lemma updateLeaderboard_valid:
  assumes "0 \<le> sc"
  shows "updateLeaderboard sanitizeInput (Some u) insideTelegram now new_session new_sync_id sc st =
     (let e = \<lparr>entry_id = sanitizeInput (str_or (user_id u) ''anonymous''),
               entry_name = sanitizeInput (str_or (first_name u) (str_or (username u) ''Anonymous'')),
               entry_score = \<lfloor>sc\<rfloor>, entry_timestamp = now, session = new_session\<rparr>;
          lb' = take MAX_LEADERBOARD_SIZE
                  (sort_by_score (filter (\<lambda>x. entry_id x \<noteq> entry_id e) (leaderboard st) @ [e]))
      in st\<lparr>leaderboard := lb', savedLocal := Some lb',
            sync := (if insideTelegram
                     then enqueueSync sanitizeInput now new_sync_id
                            (Some \<lparr>req_type = Some ''leaderboard_update'', req_data = e,
                                   req_maxAttempts = None, req_priority = Some ''normal'',
                                   req_retries = Some 3\<rparr>) (sync st)
                     else sync st)\<rparr>)"
  using assms by (simp add: updateLeaderboard_def Let_def)


text \<open>
  Claim C9, as the code has it: a call with a user and a non-negative score builds the
  player's entry, removes the entries with the player's id from the board, appends the
  new entry, sorts descending by score and keeps the first 100. So the board holds at
  most one entry for the player, and it is the new one; it is there whenever the board
  had room. The board is handed to local persistence. Inside Telegram, and only there,
  one queue item is allocated for the remote sync: type leaderboard_update, the entry
  as payload, priority normal, no attempt made yet; with room in the queue it is the
  one reference the queue gains.
\<close>

theorem updateLeaderboard_effect:
  assumes "0 \<le> sc"
  shows "let e = \<lparr>entry_id = sanitizeInput (str_or (user_id u) ''anonymous''),
                  entry_name = sanitizeInput (str_or (first_name u) (str_or (username u) ''Anonymous'')),
                  entry_score = \<lfloor>sc\<rfloor>, entry_timestamp = now, session = new_session\<rparr>;
             st' = updateLeaderboard sanitizeInput (Some u) insideTelegram now new_session
                     new_sync_id sc st;
             new = nextRef (sync st)
         in leaderboard st' = take 100 (sort_by_score
                (filter (\<lambda>x. entry_id x \<noteq> entry_id e) (leaderboard st) @ [e]))
          \<and> length (filter (\<lambda>x. entry_id x = entry_id e) (leaderboard st')) \<le> 1
          \<and> (\<forall>x\<in>set (leaderboard st'). entry_id x = entry_id e \<longrightarrow> x = e)
          \<and> (length (leaderboard st) < 100 \<longrightarrow> e \<in> set (leaderboard st'))
          \<and> sorted (map (\<lambda>x. - entry_score x) (leaderboard st'))
          \<and> length (leaderboard st') \<le> 100
          \<and> savedLocal st' = Some (leaderboard st')
          \<and> (\<not> insideTelegram \<longrightarrow> sync st' = sync st)
          \<and> (insideTelegram \<longrightarrow>
                nextRef (sync st') = new + 1
              \<and> item_type (store (sync st') new) = sanitizeInput ''leaderboard_update''
              \<and> item_data (store (sync st') new) = e
              \<and> priority (store (sync st') new) = ''normal''
              \<and> attempts (store (sync st') new) = 0
              \<and> (length (syncQueue (sync st)) < 1000 \<longrightarrow>
                    set (syncQueue (sync st')) = insert new (set (syncQueue (sync st)))
                  \<and> length (syncQueue (sync st')) = length (syncQueue (sync st)) + 1))"
proof -
  define e where "e = \<lparr>entry_id = sanitizeInput (str_or (user_id u) ''anonymous''),
                  entry_name = sanitizeInput (str_or (first_name u) (str_or (username u) ''Anonymous'')),
                  entry_score = \<lfloor>sc\<rfloor>, entry_timestamp = now, session = new_session\<rparr>"
  define st' where "st' = updateLeaderboard sanitizeInput (Some u) insideTelegram now new_session
                     new_sync_id sc st"
  define req where "req = \<lparr>req_type = Some ''leaderboard_update'', req_data = e,
      req_maxAttempts = None, req_priority = Some ''normal'', req_retries = Some 3\<rparr>"
  have lb: "leaderboard st' = take MAX_LEADERBOARD_SIZE (sort_by_score
                (filter (\<lambda>x. entry_id x \<noteq> entry_id e) (leaderboard st) @ [e]))"
    and sv: "savedLocal st' = Some (leaderboard st')"
    and sy: "sync st' = (if insideTelegram
               then enqueueSync sanitizeInput now new_sync_id (Some req) (sync st) else sync st)"
    unfolding st'_def e_def req_def by (simp_all add: updateLeaderboard_valid[OF assms] Let_def)
  note b = board_after_insert[where e = e and lb = "leaderboard st", folded lb]
  have q: "insideTelegram \<longrightarrow>
                nextRef (sync st') = nextRef (sync st) + 1
              \<and> item_type (store (sync st') (nextRef (sync st))) = sanitizeInput ''leaderboard_update''
              \<and> item_data (store (sync st') (nextRef (sync st))) = e
              \<and> priority (store (sync st') (nextRef (sync st))) = ''normal''
              \<and> attempts (store (sync st') (nextRef (sync st))) = 0
              \<and> (length (syncQueue (sync st)) < 1000 \<longrightarrow>
                    set (syncQueue (sync st')) = insert (nextRef (sync st)) (set (syncQueue (sync st)))
                  \<and> length (syncQueue (sync st')) = length (syncQueue (sync st)) + 1)"
    by (simp add: sy enqueueSync_new_item enqueueSync_room req_def str_or_def num_or_def)
  have "leaderboard st' = take 100 (sort_by_score
                (filter (\<lambda>x. entry_id x \<noteq> entry_id e) (leaderboard st) @ [e]))
          \<and> length (filter (\<lambda>x. entry_id x = entry_id e) (leaderboard st')) \<le> 1
          \<and> (\<forall>x\<in>set (leaderboard st'). entry_id x = entry_id e \<longrightarrow> x = e)
          \<and> (length (leaderboard st) < 100 \<longrightarrow> e \<in> set (leaderboard st'))
          \<and> sorted (map (\<lambda>x. - entry_score x) (leaderboard st'))
          \<and> length (leaderboard st') \<le> 100
          \<and> savedLocal st' = Some (leaderboard st')
          \<and> (\<not> insideTelegram \<longrightarrow> sync st' = sync st)"
    using lb b sv sy by (simp add: MAX_LEADERBOARD_SIZE_def)
  with q show ?thesis unfolding Let_def e_def[symmetric] st'_def[symmetric] by blast
qed

theorem updateLeaderboard_effect_witness:
  "(0::real) \<le> 12.7
   \<and> leaderboard (updateLeaderboard (\<lambda>s. s)
        (Some \<lparr>user_id = Some ''42'', first_name = Some ''Ann'', username = None\<rparr>)
        True 1000 ''sess'' ''sync_1000_a'' 12.7
        \<lparr>leaderboard =
           [\<lparr>entry_id = ''7'', entry_name = ''Bob'', entry_score = 9, entry_timestamp = 10, session = ''s7''\<rparr>,
            \<lparr>entry_id = ''42'', entry_name = ''Ann'', entry_score = 5, entry_timestamp = 20, session = ''s42''\<rparr>],
         savedLocal = None,
         sync = initialSyncState
           \<lparr>entry_id = [], entry_name = [], entry_score = 0, entry_timestamp = 0, session = []\<rparr> True\<rparr>)
     = [\<lparr>entry_id = ''42'', entry_name = ''Ann'', entry_score = 12, entry_timestamp = 1000, session = ''sess''\<rparr>,
        \<lparr>entry_id = ''7'', entry_name = ''Bob'', entry_score = 9, entry_timestamp = 10, session = ''s7''\<rparr>]
   \<and> syncQueue (sync (updateLeaderboard (\<lambda>s. s)
        (Some \<lparr>user_id = Some ''42'', first_name = Some ''Ann'', username = None\<rparr>)
        True 1000 ''sess'' ''sync_1000_a'' 12.7
        \<lparr>leaderboard =
           [\<lparr>entry_id = ''7'', entry_name = ''Bob'', entry_score = 9, entry_timestamp = 10, session = ''s7''\<rparr>,
            \<lparr>entry_id = ''42'', entry_name = ''Ann'', entry_score = 5, entry_timestamp = 20, session = ''s42''\<rparr>],
         savedLocal = None,
         sync = initialSyncState
           \<lparr>entry_id = [], entry_name = [], entry_score = 0, entry_timestamp = 0, session = []\<rparr> True\<rparr>))
     = [0]
   \<and> priority (store (sync (updateLeaderboard (\<lambda>s. s)
        (Some \<lparr>user_id = Some ''42'', first_name = Some ''Ann'', username = None\<rparr>)
        True 1000 ''sess'' ''sync_1000_a'' 12.7
        \<lparr>leaderboard =
           [\<lparr>entry_id = ''7'', entry_name = ''Bob'', entry_score = 9, entry_timestamp = 10, session = ''s7''\<rparr>,
            \<lparr>entry_id = ''42'', entry_name = ''Ann'', entry_score = 5, entry_timestamp = 20, session = ''s42''\<rparr>],
         savedLocal = None,
         sync = initialSyncState
           \<lparr>entry_id = [], entry_name = [], entry_score = 0, entry_timestamp = 0, session = []\<rparr> True\<rparr>)) 0)
     = ''normal''"
proof -
  let ?u = "\<lparr>user_id = Some ''42'', first_name = Some ''Ann'', username = None\<rparr>"
  let ?st = "\<lparr>leaderboard =
           [\<lparr>entry_id = ''7'', entry_name = ''Bob'', entry_score = 9, entry_timestamp = 10, session = ''s7''\<rparr>,
            \<lparr>entry_id = ''42'', entry_name = ''Ann'', entry_score = 5, entry_timestamp = 20, session = ''s42''\<rparr>],
         savedLocal = None,
         sync = initialSyncState
           \<lparr>entry_id = [], entry_name = [], entry_score = 0, entry_timestamp = 0, session = []\<rparr> True\<rparr>"
  let ?st' = "updateLeaderboard (\<lambda>s. s) (Some ?u) True 1000 ''sess'' ''sync_1000_a'' 12.7 ?st"
  let ?e = "\<lparr>entry_id = ''42'', entry_name = ''Ann'', entry_score = 12, entry_timestamp = 1000, session = ''sess''\<rparr>"
  have h: "(0::real) \<le> 12.7" by simp
  have e: "\<lparr>entry_id = (\<lambda>s. s) (str_or (user_id ?u) ''anonymous''),
            entry_name = (\<lambda>s. s) (str_or (first_name ?u) (str_or (username ?u) ''Anonymous'')),
            entry_score = \<lfloor>12.7::real\<rfloor>, entry_timestamp = 1000, session = ''sess''\<rparr> = ?e"
    by (simp add: str_or_def)
  have n: "nextRef (sync ?st) = 0" "length (syncQueue (sync ?st)) < 1000" "syncQueue (sync ?st) = []"
    by (simp_all add: initialSyncState_def)
  have srt: "take 100 (sort_by_score (filter (\<lambda>x. entry_id x \<noteq> entry_id ?e) (leaderboard ?st) @ [?e]))
      = [?e, \<lparr>entry_id = ''7'', entry_name = ''Bob'', entry_score = 9, entry_timestamp = 10, session = ''s7''\<rparr>]"
    by (simp add: sort_by_score_def)
  note t = updateLeaderboard_effect[OF h, where sanitizeInput = "\<lambda>s. s" and u = ?u
      and insideTelegram = True and now = 1000 and new_session = "''sess''"
      and new_sync_id = "''sync_1000_a''" and st = ?st, unfolded Let_def e n(1)]
  from t have 1: "leaderboard ?st' =
      take 100 (sort_by_score (filter (\<lambda>x. entry_id x \<noteq> entry_id ?e) (leaderboard ?st) @ [?e]))"
    by (rule conjunct1)
  from t n(2) have 2: "set (syncQueue (sync ?st')) = insert 0 (set (syncQueue (sync ?st)))"
    "length (syncQueue (sync ?st')) = length (syncQueue (sync ?st)) + 1"
    "priority (store (sync ?st') 0) = ''normal''" by blast+
  from 2(1,2) n(3) have 3: "syncQueue (sync ?st') = [0]"
    by (cases "syncQueue (sync ?st')") auto
  from h 1[unfolded srt] 3 2(3) show ?thesis by blast
qed

text \<open>
  Outside Telegram a valid update brings the board up to date and enqueues nothing: no
  item is allocated and the queue stays empty.
\<close>

theorem updateLeaderboard_gate_counterexample:
  "leaderboard (updateLeaderboard (\<lambda>s. s)
        (Some \<lparr>user_id = Some ''42'', first_name = Some ''Ann'', username = None\<rparr>)
        False 1000 ''sess'' ''sync_1000_a'' 12.7
        \<lparr>leaderboard = [], savedLocal = None,
         sync = initialSyncState
           \<lparr>entry_id = [], entry_name = [], entry_score = 0, entry_timestamp = 0, session = []\<rparr> True\<rparr>)
     = [\<lparr>entry_id = ''42'', entry_name = ''Ann'', entry_score = 12, entry_timestamp = 1000, session = ''sess''\<rparr>]
   \<and> syncQueue (sync (updateLeaderboard (\<lambda>s. s)
        (Some \<lparr>user_id = Some ''42'', first_name = Some ''Ann'', username = None\<rparr>)
        False 1000 ''sess'' ''sync_1000_a'' 12.7
        \<lparr>leaderboard = [], savedLocal = None,
         sync = initialSyncState
           \<lparr>entry_id = [], entry_name = [], entry_score = 0, entry_timestamp = 0, session = []\<rparr> True\<rparr>))
     = []
   \<and> nextRef (sync (updateLeaderboard (\<lambda>s. s)
        (Some \<lparr>user_id = Some ''42'', first_name = Some ''Ann'', username = None\<rparr>)
        False 1000 ''sess'' ''sync_1000_a'' 12.7
        \<lparr>leaderboard = [], savedLocal = None,
         sync = initialSyncState
           \<lparr>entry_id = [], entry_name = [], entry_score = 0, entry_timestamp = 0, session = []\<rparr> True\<rparr>))
     = 0"
  by code_simp

text \<open>
  The item of an update has the attempt limit of the queue, \<open>MAX_RETRY_ATTEMPTS\<close>: the
  call passes a field \<open>retries\<close>, while \<open>enqueueSync\<close> reads the limit from
  \<open>maxAttempts\<close>.
\<close>

lemma updateLeaderboard_attempt_limit:
  assumes "0 \<le> sc"
  shows "maxAttempts (store (sync (updateLeaderboard sanitizeInput (Some u) True now new_session
            new_sync_id sc st)) (nextRef (sync st))) = MAX_RETRY_ATTEMPTS"
  by (simp add: updateLeaderboard_valid[OF assms] Let_def enqueueSync_new_item num_or_def)

end
